theory Spec2Isabelle
  imports Main "HOL-Library.Sublist"
begin

section \<open>Data model\<close>

text \<open>
  A \<open>Commit\<close> of \<^verbatim>\<open>types/types\<close>: \<^verbatim>\<open>{ sha: string, message: string, pullNumber?: number }\<close>.
  Pull numbers are integers; an absent \<^verbatim>\<open>pullNumber\<close> (\<^verbatim>\<open>undefined\<close>) is \<open>None\<close>.
  Strings are lists of characters, one list element per string unit that
  \<^verbatim>\<open>slice\<close> and \<^verbatim>\<open>length\<close> count.
\<close>

record commit =
  sha :: string
  message :: string
  pullNumber :: "int option"

text \<open>The payload of a pull request, \<^verbatim>\<open>GithubPullRequestPayload\<close>.\<close>

record pull_request_payload =
  title :: string
  body :: string
  head :: string
  base :: string

section \<open>Strings of the language\<close>

text \<open>
  A template literal prints a number that is an integer of absolute value below \<open>10^21\<close>
  in decimal, with a leading minus sign when it is negative; from \<open>10^21\<close> on the
  language prints an exponent, which \<open>number_to_string\<close> does not follow. It is used on
  pull numbers only, which are the hosting service's issue numbers: they count from 1 and
  are safe integers (see \<open>is_pull_number\<close> below), and the properties that depend on the
  printed number are stated for those.
\<close>

definition digit_char :: "nat \<Rightarrow> char" where
  "digit_char d = ''0123456789'' ! (d mod 10)"

fun decimal_digits :: "nat \<Rightarrow> string" where
  "decimal_digits n =
     (if 10 \<le> n then decimal_digits (n div 10) @ [digit_char (n mod 10)] else [digit_char n])"

declare decimal_digits.simps [simp del]

definition number_to_string :: "int \<Rightarrow> string" where
  "number_to_string k =
     (if 0 \<le> k then decimal_digits (nat k) else CHR ''-'' # decimal_digits (nat (- k)))"

text \<open>\<^verbatim>\<open>Array.prototype.join\<close> on an array of strings.\<close>

fun join :: "string \<Rightarrow> string list \<Rightarrow> string" where
  "join sep [] = []"
| "join sep [x] = x"
| "join sep (x # y # ys) = x @ sep @ join sep (y # ys)"

text \<open>
  \<^verbatim>\<open>String.prototype.replace\<close> with a string pattern: only the first occurrence of the
  pattern (the leftmost one) is replaced.
\<close>

fun replace :: "string \<Rightarrow> string \<Rightarrow> string \<Rightarrow> string" where
  "replace pat rep [] = (if pat = [] then rep else [])"
| "replace pat rep (x # xs) =
     (if prefix pat (x # xs) then rep @ drop (length pat) (x # xs)
      else x # replace pat rep xs)"

text \<open>
  The number of occurrences of a pattern in a string: the positions at which the pattern
  starts.
\<close>

fun occurrences :: "string \<Rightarrow> string \<Rightarrow> nat" where
  "occurrences pat [] = (if pat = [] then 1 else 0)"
| "occurrences pat (x # xs) = (if prefix pat (x # xs) then 1 else 0) + occurrences pat xs"

text \<open>Removing every occurrence of a pattern, leftmost first, as the specification words it.\<close>

function strip_all :: "string \<Rightarrow> string \<Rightarrow> string" where
  "strip_all pat [] = []"
| "strip_all pat (x # xs) =
     (if pat \<noteq> [] \<and> prefix pat (x # xs) then strip_all pat (drop (length pat) (x # xs))
      else x # strip_all pat xs)"
  by pat_completeness auto
termination
  by (relation "measure (\<lambda>(pat, s). length s)") (auto simp: Suc_le_eq)

section \<open>ReferenceNaming: \<^verbatim>\<open>cliService.ts\<close>, lines 221 to 309\<close>

text \<open>
  The test \<^verbatim>\<open>commit.pullNumber ? a : b\<close> is on the truthiness of the value: \<^verbatim>\<open>undefined\<close>
  and the number \<open>0\<close> both take the second branch.
\<close>

definition truthy_number :: "int \<Rightarrow> bool" where
  "truthy_number n = (n \<noteq> 0)"

definition getShortSha :: "commit \<Rightarrow> string" where
  "getShortSha c = take 7 (sha c)"

definition getReferenceLong :: "commit \<Rightarrow> string" where
  "getReferenceLong c =
     (case pullNumber c of
        Some n \<Rightarrow> if truthy_number n then ''#'' @ number_to_string n else getShortSha c
      | None \<Rightarrow> getShortSha c)"

definition getReferenceShort :: "commit \<Rightarrow> string" where
  "getReferenceShort c =
     (case pullNumber c of
        Some n \<Rightarrow> if truthy_number n then ''pr-'' @ number_to_string n else ''commit-'' @ getShortSha c
      | None \<Rightarrow> ''commit-'' @ getShortSha c)"

definition getFeatureBranchName :: "string \<Rightarrow> commit list \<Rightarrow> string" where
  "getFeatureBranchName baseBranch commits =
     (let refValues = take 200 (join ''_'' (map getReferenceShort commits))
      in ''backport/'' @ baseBranch @ ''/'' @ refValues)"

definition getPullRequestTitle :: "string \<Rightarrow> commit list \<Rightarrow> string" where
  "getPullRequestTitle baseBranch commits =
     (let commitMessages = take 200 (join '' | '' (map message commits))
      in ''['' @ baseBranch @ ''] '' @ commitMessages)"

text \<open>One bullet of the body: the closure of lines 297 to 300.\<close>

definition commitRef :: "commit \<Rightarrow> string" where
  "commitRef c =
     (let ref = getReferenceLong c
      in '' - '' @ replace (''('' @ ref @ '')'') [] (message c) @ '' ('' @ ref @ '')'')"

definition getPullRequestPayload :: "string \<Rightarrow> commit list \<Rightarrow> string \<Rightarrow> pull_request_payload" where
  "getPullRequestPayload baseBranch commits username =
     (let featureBranch = getFeatureBranchName baseBranch commits;
          commitRefs = join [CHR 0x0A] (map commitRef commits)
      in \<lparr> title = getPullRequestTitle baseBranch commits,
           body = ''Backports the following commits to '' @ baseBranch @ '':'' @ [CHR 0x0A] @ commitRefs,
           head = username @ '':'' @ featureBranch,
           base = baseBranch \<rparr>)"

section \<open>Errors, events and the collaborators\<close>

text \<open>
  A value of the response body of the hosting API, and of the object that
  \<^verbatim>\<open>getError\<close> hands to \<^verbatim>\<open>JSON.stringify\<close>.
\<close>

datatype js_data =
    JUndefined
  | JNull
  | JBool bool
  | JNum int
  | JStr string
  | JArr "js_data list"
  | JObj "(string \<times> js_data) list"

text \<open>
  A thrown value, with the properties the program reads: \<^verbatim>\<open>e.name\<close>, \<^verbatim>\<open>e.message\<close>,
  \<^verbatim>\<open>e.cmd\<close> (set by the command runner on a failed command; \<open>None\<close> when the property
  is absent), \<^verbatim>\<open>e.response.data\<close> (\<open>None\<close> when there is no \<^verbatim>\<open>e.response\<close>) and
  \<^verbatim>\<open>e.config.url\<close> (\<open>None\<close> when it is \<^verbatim>\<open>undefined\<close>).
\<close>

record js_error =
  e_name :: string
  e_message :: string
  e_cmd :: "string option"
  e_response :: "js_data option"
  e_config_url :: "string option"

text \<open>
  Modelled from the spec: the class \<^verbatim>\<open>HandledError\<close> of \<^verbatim>\<open>lib/errors\<close>, which is not
  among the sources. It is the operator-facing (expected) failure, the one that
  \<^verbatim>\<open>handleErrors\<close> recognises by its name.
\<close>

definition HandledError :: "string \<Rightarrow> js_error" where
  "HandledError m =
     \<lparr> e_name = ''HandledError'', e_message = m, e_cmd = None, e_response = None,
       e_config_url = None \<rparr>"

text \<open>
  The error the language raises when a property of \<^verbatim>\<open>undefined\<close> is read; the text of the
  message is the engine's.
\<close>

definition TypeError :: "string \<Rightarrow> js_error" where
  "TypeError m =
     \<lparr> e_name = ''TypeError'', e_message = m, e_cmd = None, e_response = None,
       e_config_url = None \<rparr>"

definition includes_of_undefined :: string where
  "includes_of_undefined =
     ''Cannot read property '' @ [CHR 0x27] @ ''includes'' @ [CHR 0x27] @ '' of undefined''"

text \<open>The reference to a created pull request, \<^verbatim>\<open>{ html_url, number }\<close>.\<close>

record pull_request =
  html_url :: string
  number :: int

datatype request_body = PullRequestBody pull_request_payload | LabelsBody "string list"

text \<open>
  What the program does to the outside, in the order it does it: lines written by the
  logger and the console, the life cycle of the spinner, and every call of a collaborator
  with its arguments.
\<close>

datatype event =
    Log string
  | ConsoleError string
  | ConsoleErrorValue js_error
  | SpinnerStart "string option"
  | SpinnerSucceed
  | SpinnerStop
  | SpinnerText string
  | SpinnerFail
  | ResetBranch string string
  | CreateAndCheckoutBranch string string string string
  | Cherrypick string string string
  | Push string string string string
  | IsIndexDirty string string
  | ConfirmConflictResolved
  | AxiosPost string request_body

text \<open>
  The collaborators, which are not among the sources: the commands of \<^verbatim>\<open>lib/git\<close>, the
  prompt of \<^verbatim>\<open>lib/prompts\<close>, \<^verbatim>\<open>axios.post\<close> (one function for each of the two bodies that
  are posted), \<^verbatim>\<open>getRepoPath\<close> of \<^verbatim>\<open>lib/env\<close>, the access token that \<^verbatim>\<open>setAccessToken\<close>
  stored, and \<^verbatim>\<open>JSON.stringify(_, null, 4)\<close>. Each call reads and changes the world
  \<open>'w\<close> (the working copy, the remote, the operator) and either resolves or rejects.
\<close>

record 'w env =
  resetBranch :: "string \<Rightarrow> string \<Rightarrow> 'w \<Rightarrow> (js_error + unit) \<times> 'w"
  createAndCheckoutBranch :: "string \<Rightarrow> string \<Rightarrow> string \<Rightarrow> string \<Rightarrow> 'w \<Rightarrow> (js_error + unit) \<times> 'w"
  cherrypick :: "string \<Rightarrow> string \<Rightarrow> string \<Rightarrow> 'w \<Rightarrow> (js_error + unit) \<times> 'w"
  push :: "string \<Rightarrow> string \<Rightarrow> string \<Rightarrow> string \<Rightarrow> 'w \<Rightarrow> (js_error + unit) \<times> 'w"
  isIndexDirty :: "string \<Rightarrow> string \<Rightarrow> 'w \<Rightarrow> (js_error + bool) \<times> 'w"
  confirmConflictResolved :: "'w \<Rightarrow> (js_error + bool) \<times> 'w"
  axios_post_pulls :: "string \<Rightarrow> pull_request_payload \<Rightarrow> 'w \<Rightarrow> (js_error + pull_request) \<times> 'w"
  axios_post_labels :: "string \<Rightarrow> string list \<Rightarrow> 'w \<Rightarrow> (js_error + unit) \<times> 'w"
  getRepoPath :: "string \<Rightarrow> string \<Rightarrow> string"
  accessToken :: string
  json_stringify :: "js_data \<Rightarrow> string"

record 'w state =
  trace :: "event list"
  world :: 'w

text \<open>
  An asynchronous computation: from a state it resolves (\<open>Inr\<close>) or rejects (\<open>Inl\<close>) in a
  new state, or never settles (\<open>None\<close>).
\<close>

type_synonym ('w, 'a) promise = "'w state \<Rightarrow> ((js_error + 'a) \<times> 'w state) option"

definition emit :: "event \<Rightarrow> 'w state \<Rightarrow> 'w state" where
  "emit ev s = s\<lparr>trace := trace s @ [ev]\<rparr>"

definition call :: "event \<Rightarrow> ('w \<Rightarrow> (js_error + 'a) \<times> 'w) \<Rightarrow> 'w state \<Rightarrow> (js_error + 'a) \<times> 'w state" where
  "call ev f s = (case f (world s) of (r, w) \<Rightarrow> (r, \<lparr>trace = trace s @ [ev], world = w\<rparr>))"

definition await :: "('w, 'a) promise \<Rightarrow> ('a \<Rightarrow> ('w, 'b) promise) \<Rightarrow> ('w, 'b) promise" where
  "await p k s =
     (case p s of
        None \<Rightarrow> None
      | Some (Inl e, s1) \<Rightarrow> Some (Inl e, s1)
      | Some (Inr v, s1) \<Rightarrow> k v s1)"

text \<open>The values that flow through \<^verbatim>\<open>sequentially\<close>, whose handler returns \<^verbatim>\<open>Promise<any>\<close>.\<close>

datatype js_value = Undefined | PullRequestValue pull_request

section \<open>The hosting API: \<^verbatim>\<open>github.ts\<close>\<close>

text \<open>Truthiness of a value, and the own enumerable properties that an object spread copies.\<close>

fun truthy :: "js_data \<Rightarrow> bool" where
  "truthy JUndefined = False"
| "truthy JNull = False"
| "truthy (JBool b) = b"
| "truthy (JNum n) = (n \<noteq> 0)"
| "truthy (JStr s) = (s \<noteq> [])"
| "truthy (JArr xs) = True"
| "truthy (JObj kvs) = True"

fun spread :: "js_data \<Rightarrow> (string \<times> js_data) list" where
  "spread (JObj kvs) = kvs"
| "spread (JArr xs) = zip (map decimal_digits [0..<length xs]) xs"
| "spread (JStr s) = zip (map decimal_digits [0..<length s]) (map (\<lambda>c. JStr [c]) s)"
| "spread d = []"

fun set_property :: "string \<Rightarrow> js_data \<Rightarrow> (string \<times> js_data) list \<Rightarrow> (string \<times> js_data) list" where
  "set_property k v [] = [(k, v)]"
| "set_property k v ((k', v') # kvs) =
     (if k' = k then (k, v) # kvs else (k', v') # set_property k v kvs)"

definition getError :: "(js_data \<Rightarrow> string) \<Rightarrow> js_error \<Rightarrow> js_error" where
  "getError stringify e =
     (case e_response e of
        None \<Rightarrow> e
      | Some d \<Rightarrow>
          if truthy d then
            HandledError (stringify (JObj (set_property ''axiosUrl''
              (case e_config_url e of None \<Rightarrow> JUndefined | Some u \<Rightarrow> JStr u) (spread d))))
          else e)"

definition createPullRequest ::
  "'w env \<Rightarrow> string \<Rightarrow> string \<Rightarrow> pull_request_payload \<Rightarrow> ('w, pull_request) promise" where
  "createPullRequest env owner repoName payload s =
     (let url = ''https://api.github.com/repos/'' @ owner @ ''/'' @ repoName
                @ ''/pulls?access_token='' @ accessToken env
      in case call (AxiosPost url (PullRequestBody payload)) (axios_post_pulls env url payload) s of
           (Inr d, s1) \<Rightarrow> Some (Inr \<lparr> html_url = html_url d, number = number d \<rparr>, s1)
         | (Inl e, s1) \<Rightarrow> Some (Inl (getError (json_stringify env) e), s1))"

definition addLabels ::
  "'w env \<Rightarrow> string \<Rightarrow> string \<Rightarrow> int \<Rightarrow> string list \<Rightarrow> ('w, unit) promise" where
  "addLabels env owner repoName pull_number labels s =
     (let url = ''https://api.github.com/repos/'' @ owner @ ''/'' @ repoName
                @ ''/issues/'' @ number_to_string pull_number @ ''/labels?access_token='' @ accessToken env
      in case call (AxiosPost url (LabelsBody labels)) (axios_post_labels env url labels) s of
           (Inr r, s1) \<Rightarrow> Some (Inr r, s1)
         | (Inl e, s1) \<Rightarrow> Some (Inl (getError (json_stringify env) e), s1))"

section \<open>The orchestration: \<^verbatim>\<open>cliService.ts\<close>\<close>

text \<open>\<^verbatim>\<open>if (text)\<close> on an optional string: \<^verbatim>\<open>undefined\<close> and the empty string are falsy.\<close>

definition truthy_string :: "string option \<Rightarrow> bool" where
  "truthy_string t = (case t of None \<Rightarrow> False | Some x \<Rightarrow> x \<noteq> [])"

definition withSpinner :: "string option \<Rightarrow> string option \<Rightarrow> ('w, 'a) promise \<Rightarrow> ('w, 'a) promise" where
  "withSpinner text errorText fn s =
     (case fn (emit (SpinnerStart text) s) of
        None \<Rightarrow> None
      | Some (Inr res, s1) \<Rightarrow>
          Some (Inr res, emit (if truthy_string text then SpinnerSucceed else SpinnerStop) s1)
      | Some (Inl e, s1) \<Rightarrow>
          Some (Inl e, emit SpinnerFail
            (case errorText of
               None \<Rightarrow> s1
             | Some t \<Rightarrow> if t \<noteq> [] then emit (SpinnerText t) s1 else s1)))"

text \<open>
  \<^verbatim>\<open>items.reduce(async (p, item) => { await p; return handler(item) }, Promise.resolve())\<close>:
  a left fold over promises, from one that resolves with \<^verbatim>\<open>undefined\<close>.
\<close>

definition sequentially :: "'a list \<Rightarrow> ('a \<Rightarrow> ('w, js_value) promise) \<Rightarrow> ('w, js_value) promise" where
  "sequentially items handler =
     foldl (\<lambda>p item. await p (\<lambda>_. handler item)) (\<lambda>s. Some (Inr Undefined, s)) items"

text \<open>\<^verbatim>\<open>String.prototype.includes\<close>.\<close>

fun includes_str :: "string \<Rightarrow> string \<Rightarrow> bool" where
  "includes_str [] sub = (sub = [])"
| "includes_str (x # xs) sub = (prefix sub (x # xs) \<or> includes_str xs sub)"

partial_function (option) confirmResolvedRecursive ::
  "'w env \<Rightarrow> string \<Rightarrow> string \<Rightarrow> 'w state \<Rightarrow> ((js_error + unit) \<times> 'w state) option" where
  "confirmResolvedRecursive env owner repoName s =
     (case call ConfirmConflictResolved (confirmConflictResolved env) s of
        (Inl e, s1) \<Rightarrow> Some (Inl e, s1)
      | (Inr res, s1) \<Rightarrow>
          if \<not> res then Some (Inl (HandledError ''Application was aborted.''), s1)
          else
            (case call (IsIndexDirty owner repoName) (isIndexDirty env owner repoName) s1 of
               (Inl e, s2) \<Rightarrow> Some (Inl e, s2)
             | (Inr isDirty, s2) \<Rightarrow>
                 if isDirty then confirmResolvedRecursive env owner repoName s2
                 else Some (Inr (), s2)))"

declare confirmResolvedRecursive.simps [code]

definition cherrypickAndConfirm :: "'w env \<Rightarrow> string \<Rightarrow> string \<Rightarrow> string \<Rightarrow> ('w, unit) promise" where
  "cherrypickAndConfirm env owner repoName commit_sha s =
     (case withSpinner (Some ''Cherry-picking commit'')
             (Some (''Cherry-picking failed. Please resolve conflicts in: ''
                    @ getRepoPath env owner repoName))
             (\<lambda>s. Some (call (Cherrypick owner repoName commit_sha)
                (cherrypick env owner repoName commit_sha) s)) s of
        None \<Rightarrow> None
      | Some (Inr r, s1) \<Rightarrow> Some (Inr (), s1)
      | Some (Inl e, s1) \<Rightarrow>
          (case e_cmd e of
             None \<Rightarrow> Some (Inl (TypeError includes_of_undefined), s1)
           | Some cmd \<Rightarrow>
               let hasConflict = includes_str cmd ''git cherry-pick''
               in if \<not> hasConflict then Some (Inl e, s1)
                  else confirmResolvedRecursive env owner repoName s1))"

text \<open>The four steps of \<^verbatim>\<open>doBackportVersion\<close>, lines 80 to 105, in the order they are awaited.\<close>

definition pullLatestChanges ::
  "'w env \<Rightarrow> string \<Rightarrow> string \<Rightarrow> string \<Rightarrow> string \<Rightarrow> ('w, unit) promise" where
  "pullLatestChanges env owner repoName baseBranch featureBranch =
     withSpinner (Some ''Pulling latest changes'') None
       (await (\<lambda>s. Some (call (ResetBranch owner repoName) (resetBranch env owner repoName) s))
          (\<lambda>_ s. Some (call (CreateAndCheckoutBranch owner repoName baseBranch featureBranch)
             (createAndCheckoutBranch env owner repoName baseBranch featureBranch) s)))"

definition cherrypickCommits ::
  "'w env \<Rightarrow> string \<Rightarrow> string \<Rightarrow> commit list \<Rightarrow> ('w, js_value) promise" where
  "cherrypickCommits env owner repoName commits =
     sequentially commits
       (\<lambda>commit. await (cherrypickAndConfirm env owner repoName (sha commit))
          (\<lambda>_ s. Some (Inr Undefined, s)))"

definition pushFeatureBranch ::
  "'w env \<Rightarrow> string \<Rightarrow> string \<Rightarrow> string \<Rightarrow> string \<Rightarrow> ('w, unit) promise" where
  "pushFeatureBranch env owner repoName username featureBranch =
     withSpinner (Some (''Pushing branch '' @ username @ '':'' @ featureBranch)) None
       (\<lambda>s. Some (call (Push owner repoName username featureBranch)
          (push env owner repoName username featureBranch) s))"

definition creatingPullRequest ::
  "'w env \<Rightarrow> string \<Rightarrow> string \<Rightarrow> commit list \<Rightarrow> string \<Rightarrow> string \<Rightarrow> string list
     \<Rightarrow> ('w, pull_request) promise" where
  "creatingPullRequest env owner repoName commits baseBranch username labels =
     withSpinner (Some ''Creating pull request'') None
       (let payload = getPullRequestPayload baseBranch commits username
        in await (createPullRequest env owner repoName payload)
             (\<lambda>pullRequest.
                if length labels > 0 then
                  await (addLabels env owner repoName (number pullRequest) labels)
                    (\<lambda>_ s. Some (Inr pullRequest, s))
                else (\<lambda>s. Some (Inr pullRequest, s))))"

definition doBackportVersion ::
  "'w env \<Rightarrow> string \<Rightarrow> string \<Rightarrow> commit list \<Rightarrow> string \<Rightarrow> string \<Rightarrow> string list
     \<Rightarrow> ('w, pull_request) promise" where
  "doBackportVersion env owner repoName commits baseBranch username labels s =
     (let featureBranch = getFeatureBranchName baseBranch commits;
          refValues = join '', '' (map getReferenceLong commits)
      in
       await (pullLatestChanges env owner repoName baseBranch featureBranch)
         (\<lambda>_. await (cherrypickCommits env owner repoName commits)
         (\<lambda>_. await (pushFeatureBranch env owner repoName username featureBranch)
         (\<lambda>_. creatingPullRequest env owner repoName commits baseBranch username labels)))
         (emit (Log (''Backporting '' @ refValues @ '' to '' @ baseBranch)) s))"

definition handleErrors :: "js_error \<Rightarrow> 'w state \<Rightarrow> (js_error + unit) \<times> 'w state" where
  "handleErrors e s =
     (if e_name e = ''HandledError'' then (Inr (), emit (ConsoleError (e_message e)) s)
      else (Inl e, emit (ConsoleErrorValue e) s))"

definition doBackportVersions ::
  "'w env \<Rightarrow> string \<Rightarrow> string \<Rightarrow> commit list \<Rightarrow> string list \<Rightarrow> string \<Rightarrow> string list
     \<Rightarrow> ('w, js_value) promise" where
  "doBackportVersions env owner repoName commits branches username labels =
     sequentially branches
       (\<lambda>baseBranch s.
          case doBackportVersion env owner repoName commits baseBranch username labels s of
            None \<Rightarrow> None
          | Some (Inr pullRequest, s1) \<Rightarrow>
              Some (Inr Undefined,
                emit (Log (''View pull request: '' @ html_url pullRequest @ [CHR 0x0A])) s1)
          | Some (Inl e, s1) \<Rightarrow>
              (case handleErrors e s1 of
                 (Inr u, s2) \<Rightarrow> Some (Inr Undefined, s2)
               | (Inl e', s2) \<Rightarrow> Some (Inl e', s2)))"

section \<open>Notions used to state the properties\<close>

text \<open>The data model's full hash: forty lowercase hexadecimal digits.\<close>

definition lower_hex :: "char \<Rightarrow> bool" where
  "lower_hex c = (c \<in> set ''0123456789abcdef'')"

definition is_full_hash :: "string \<Rightarrow> bool" where
  "is_full_hash s = (length s = 40 \<and> list_all lower_hex s)"

text \<open>
  The pull numbers of the data model: the numbers the hosting service gives to issues and
  pull requests, which count from 1, within the integers the language's numbers hold
  exactly (up to \<open>2^53 - 1\<close>). A commit's pull number, when it has one, is such a number.
\<close>

definition is_pull_number :: "int \<Rightarrow> bool" where
  "is_pull_number n = (1 \<le> n \<and> n \<le> 9007199254740991)"

definition pull_number_ok :: "commit \<Rightarrow> bool" where
  "pull_number_ok c = (case pullNumber c of None \<Rightarrow> True | Some n \<Rightarrow> is_pull_number n)"

text \<open>
  The short reference and the short slug in the specification's words: the pull number
  when the commit has one, the sha otherwise.
\<close>

definition shortReference_spec :: "commit \<Rightarrow> string" where
  "shortReference_spec c =
     (case pullNumber c of Some n \<Rightarrow> ''#'' @ number_to_string n | None \<Rightarrow> take 7 (sha c))"

definition shortSlug_spec :: "commit \<Rightarrow> string" where
  "shortSlug_spec c =
     (case pullNumber c of
        Some n \<Rightarrow> ''pr-'' @ number_to_string n
      | None \<Rightarrow> ''commit-'' @ take 7 (sha c))"

definition featureBranchName_spec :: "string \<Rightarrow> commit list \<Rightarrow> string" where
  "featureBranchName_spec baseBranch commits =
     ''backport/'' @ baseBranch @ ''/'' @ take 200 (join ''_'' (map shortSlug_spec commits))"

text \<open>Events that invoke cherry-pick, and events that publish: a push or a request to the API.\<close>

fun is_cherrypick :: "event \<Rightarrow> bool" where
  "is_cherrypick (Cherrypick owner repoName commit_sha) = True"
| "is_cherrypick ev = False"

fun is_publish :: "event \<Rightarrow> bool" where
  "is_publish (Push owner repoName username featureBranch) = True"
| "is_publish (AxiosPost url b) = True"
| "is_publish ev = False"

text \<open>What happened between two states: the events of the later one that the earlier lacks.\<close>

definition events_since :: "'w state \<Rightarrow> 'w state \<Rightarrow> event list" where
  "events_since s s' = drop (length (trace s)) (trace s')"

text \<open>
  The start of a branch's pipeline: the line that announces the backport and the step
  that pulls the latest changes.
\<close>

definition startBranch ::
  "'w env \<Rightarrow> string \<Rightarrow> string \<Rightarrow> commit list \<Rightarrow> string \<Rightarrow> ('w, unit) promise" where
  "startBranch env owner repoName commits baseBranch s =
     pullLatestChanges env owner repoName baseBranch (getFeatureBranchName baseBranch commits)
       (emit (Log (''Backporting '' @ join '', '' (map getReferenceLong commits)
                   @ '' to '' @ baseBranch)) s)"

text \<open>
  \<open>n\<close> rounds in which the operator confirms and the working tree is still dirty, and
  the world they lead to; \<open>None\<close> when one of the first \<open>n\<close> rounds goes another way.
\<close>

fun dirty_rounds :: "'w env \<Rightarrow> string \<Rightarrow> string \<Rightarrow> nat \<Rightarrow> 'w \<Rightarrow> 'w option" where
  "dirty_rounds env owner repoName 0 w = Some w"
| "dirty_rounds env owner repoName (Suc n) w =
     (case confirmConflictResolved env w of
        (Inr True, w1) \<Rightarrow>
          (case isIndexDirty env owner repoName w1 of
             (Inr True, w2) \<Rightarrow> dirty_rounds env owner repoName n w2
           | _ \<Rightarrow> None)
      | _ \<Rightarrow> None)"

text \<open>The events of a cherry-pick step that fails: the command is run once and the spinner fails.\<close>

definition pick_failed :: "'w env \<Rightarrow> string \<Rightarrow> string \<Rightarrow> string \<Rightarrow> event list" where
  "pick_failed env owner repoName commit_sha =
     [SpinnerStart (Some ''Cherry-picking commit''), Cherrypick owner repoName commit_sha,
      SpinnerText (''Cherry-picking failed. Please resolve conflicts in: ''
        @ getRepoPath env owner repoName),
      SpinnerFail]"

text \<open>
  The object that \<^verbatim>\<open>getError\<close> prints for an error response with the body \<open>d\<close>: the
  properties of the body and the request's URL as \<^verbatim>\<open>axiosUrl\<close>.
\<close>

definition diagnostic :: "js_error \<Rightarrow> js_data \<Rightarrow> js_data" where
  "diagnostic e d =
     JObj (set_property ''axiosUrl''
       (case e_config_url e of None \<Rightarrow> JUndefined | Some u \<Rightarrow> JStr u) (spread d))"

definition round_events :: "string \<Rightarrow> string \<Rightarrow> nat \<Rightarrow> event list" where
  "round_events owner repoName n =
     concat (replicate n [ConfirmConflictResolved, IsIndexDirty owner repoName])"

text \<open>
  A world that follows a script, for running the program on concrete inputs: the outcomes
  of the successive cherry-pick commands, the operator's successive answers, the
  successive states of the working tree and the outcomes of the successive requests for a
  pull request. Everything else succeeds; a script that has run out means success, the
  answer no, a clean tree.
\<close>

record script =
  picks :: "js_error option list"
  answers :: "bool list"
  dirty :: "bool list"
  posts :: "js_error option list"

fun print_data :: "js_data \<Rightarrow> string" where
  "print_data (JStr s) = s"
| "print_data (JObj kvs) =
     concat (map (\<lambda>(k, v). k @ ''='' @ (case v of JStr s \<Rightarrow> s | _ \<Rightarrow> ''?'') @ '';'') kvs)"
| "print_data d = ''?''"

definition scripted :: "script env" where
  "scripted =
     \<lparr> resetBranch = (\<lambda>owner repoName w. (Inr (), w)),
       createAndCheckoutBranch = (\<lambda>owner repoName baseBranch featureBranch w. (Inr (), w)),
       cherrypick = (\<lambda>owner repoName commit_sha w.
          case picks w of
            [] \<Rightarrow> (Inr (), w)
          | None # ps \<Rightarrow> (Inr (), w\<lparr>picks := ps\<rparr>)
          | Some e # ps \<Rightarrow> (Inl e, w\<lparr>picks := ps\<rparr>)),
       push = (\<lambda>owner repoName username featureBranch w. (Inr (), w)),
       isIndexDirty = (\<lambda>owner repoName w.
          case dirty w of [] \<Rightarrow> (Inr False, w) | d # ds \<Rightarrow> (Inr d, w\<lparr>dirty := ds\<rparr>)),
       confirmConflictResolved = (\<lambda>w.
          case answers w of [] \<Rightarrow> (Inr False, w) | a # as \<Rightarrow> (Inr a, w\<lparr>answers := as\<rparr>)),
       axios_post_pulls = (\<lambda>url payload w.
          case posts w of
            [] \<Rightarrow> (Inr \<lparr>html_url = ''https://github.com/pull/1'', number = 1\<rparr>, w)
          | None # ps \<Rightarrow>
              (Inr \<lparr>html_url = ''https://github.com/pull/1'', number = 1\<rparr>, w\<lparr>posts := ps\<rparr>)
          | Some e # ps \<Rightarrow> (Inl e, w\<lparr>posts := ps\<rparr>)),
       axios_post_labels = (\<lambda>url labels w. (Inr (), w)),
       getRepoPath = (\<lambda>owner repoName. ''/repositories/'' @ owner @ ''/'' @ repoName),
       accessToken = ''t'',
       json_stringify = print_data \<rparr>"

text \<open>The failure of a cherry-pick command on a conflict, as the command runner reports it.\<close>

definition conflict :: js_error where
  "conflict =
     \<lparr> e_name = ''Error'', e_message = ''Command failed'', e_cmd = Some ''git cherry-pick abc1234'',
       e_response = None, e_config_url = None \<rparr>"

text \<open>A failure that did not come from a command, and an error response of the API.\<close>

definition network_error :: js_error where
  "network_error =
     \<lparr> e_name = ''Error'', e_message = ''socket hang up'', e_cmd = None,
       e_response = None, e_config_url = None \<rparr>"

definition api_error :: js_error where
  "api_error =
     \<lparr> e_name = ''Error'', e_message = ''Request failed with status code 422'', e_cmd = None,
       e_response = Some (JObj [(''message'', JStr ''Validation Failed'')]),
       e_config_url = Some ''https://api.github.com/repos/o/r/pulls?access_token=t'' \<rparr>"

definition command_failure :: js_error where
  "command_failure =
     \<lparr> e_name = ''Error'', e_message = ''Command failed'', e_cmd = Some ''git status'',
       e_response = None, e_config_url = None \<rparr>"

definition cleanup :: commit where
  "cleanup = \<lparr> sha = ''deadbeefcafe0123456789abcdef0123456789ab'', message = ''Clean up'',
                pullNumber = None \<rparr>"

definition fix10 :: commit where
  "fix10 = \<lparr> sha = ''abc1234def0123456789abcdef0123456789abcd'', message = ''Fix bug (#10)'',
              pullNumber = Some 10 \<rparr>"

definition start :: "script \<Rightarrow> script state" where
  "start w = \<lparr> trace = [], world = w \<rparr>"

section \<open>Strings\<close>

lemma occurrences_short: "length xs < length pat \<Longrightarrow> occurrences pat xs = 0"
proof (induction xs)
  case Nil
  then show ?case by auto
next
  case (Cons x xs)
  have "\<not> prefix pat (x # xs)"
    using Cons.prems prefix_length_le by fastforce
  with Cons show ?case by simp
qed

lemma prefix_across_separator:
  assumes "c \<notin> set pat"
  shows "prefix pat (xs @ c # ys) \<longleftrightarrow> prefix pat xs"
proof
  assume "prefix pat (xs @ c # ys)"
  then consider "prefix pat xs" | us where "pat = xs @ us" "prefix us (c # ys)"
    by (auto simp: prefix_append)
  then show "prefix pat xs"
  proof cases
    case 1
    then show ?thesis .
  next
    case 2
    with assms have "us = []"
      by (cases us) auto
    with 2 show ?thesis by simp
  qed
next
  assume "prefix pat xs"
  then show "prefix pat (xs @ c # ys)"
    by (simp add: prefix_prefix)
qed

lemma occurrences_separator:
  assumes "c \<notin> set pat" and "pat \<noteq> []"
  shows "occurrences pat (xs @ c # ys) = occurrences pat xs + occurrences pat ys"
proof (induction xs)
  case Nil
  have "\<not> prefix pat (c # ys)"
    using assms by (cases pat) auto
  with assms show ?case by simp
next
  case (Cons x xs)
  have "prefix pat ((x # xs) @ c # ys) \<longleftrightarrow> prefix pat (x # xs)"
    using assms(1) by (rule prefix_across_separator)
  with Cons show ?case by simp
qed

lemma occurrences_self: "pat \<noteq> [] \<Longrightarrow> occurrences pat pat = 1"
  by (cases pat) (simp_all add: occurrences_short)

lemma digit_char_digit: "digit_char d \<in> set ''0123456789''"
  unfolding digit_char_def by (rule nth_mem) simp

lemma decimal_digits_digits: "set (decimal_digits n) \<subseteq> set ''0123456789''"
proof (induction n rule: decimal_digits.induct)
  case (1 n)
  show ?case
  proof (cases "10 \<le> n")
    case False
    then show ?thesis
      using digit_char_digit [of n] by (subst decimal_digits.simps) simp
  next
    case True
    then show ?thesis
      using 1 digit_char_digit [of "n mod 10"] by (subst decimal_digits.simps) simp
  qed
qed

lemma number_to_string_no_space: "CHR '' '' \<notin> set (number_to_string n)"
  using decimal_digits_digits [of "nat n"] decimal_digits_digits [of "nat (- n)"]
  by (auto simp: number_to_string_def)

lemma occurrences_bullet:
  assumes "CHR '' '' \<notin> set ref"
  shows "occurrences (''('' @ ref @ '')'') ('' - '' @ m @ '' ('' @ ref @ '')'')
          = Suc (occurrences (''('' @ ref @ '')'') m)"
proof -
  let ?pat = "''('' @ ref @ '')''"
  have sp: "CHR '' '' \<notin> set ?pat" and ne: "?pat \<noteq> []"
    using assms by auto
  have "'' - '' @ m @ '' ('' @ ref @ '')'' = [] @ CHR '' '' # (''-'' @ CHR '' '' # (m @ CHR '' '' # ?pat))"
    by simp
  then have "occurrences ?pat ('' - '' @ m @ '' ('' @ ref @ '')'')
      = occurrences ?pat [] + (occurrences ?pat ''-'' + (occurrences ?pat m + occurrences ?pat ?pat))"
    by (simp only: occurrences_separator [OF sp ne])
  moreover have "occurrences ?pat [] = 0" by simp
  moreover have "occurrences ?pat ''-'' = 0" by (rule occurrences_short) simp
  moreover have "occurrences ?pat ?pat = 1" by (rule occurrences_self) simp
  ultimately show ?thesis by simp
qed

lemma replace_absent: "occurrences pat s = 0 \<Longrightarrow> replace pat rep s = s"
  by (induction s) (auto split: if_splits)

lemma replace_leftmost:
  "\<forall>i<length pre. \<not> prefix pat (drop i (pre @ pat @ post)) \<Longrightarrow>
   replace pat rep (pre @ pat @ post) = pre @ rep @ post"
proof (induction pre)
  case Nil
  show ?case
  proof (cases "pat @ post")
    case Nil
    then show ?thesis by simp
  next
    case (Cons a list)
    have "prefix pat (a # list)"
      unfolding Cons [symmetric] by simp
    then have "replace pat rep (a # list) = rep @ drop (length pat) (a # list)"
      by simp
    also have "\<dots> = rep @ post"
      unfolding Cons [symmetric] by simp
    finally have "replace pat rep (pat @ post) = rep @ post"
      unfolding Cons [symmetric] .
    then show ?thesis by simp
  qed
next
  case (Cons x pre)
  from Cons.prems have "\<not> prefix pat (drop 0 ((x # pre) @ pat @ post))"
    by blast
  then have head: "\<not> prefix pat (x # pre @ pat @ post)"
    by simp
  have "\<forall>i<length pre. \<not> prefix pat (drop i (pre @ pat @ post))"
  proof (intro allI impI)
    fix i
    assume "i < length pre"
    then have "Suc i < length (x # pre)" by simp
    with Cons.prems have "\<not> prefix pat (drop (Suc i) ((x # pre) @ pat @ post))"
      by blast
    then show "\<not> prefix pat (drop i (pre @ pat @ post))" by simp
  qed
  with Cons.IH head show ?case by simp
qed

lemma occurrences_suffix: "occurrences pat post \<le> occurrences pat (pre @ post)"
  by (induction pre) auto

lemma hex_no_space:
  assumes "list_all lower_hex s"
  shows "CHR '' '' \<notin> set s"
proof
  assume "CHR '' '' \<in> set s"
  with assms have "lower_hex CHR '' ''"
    by (simp add: list_all_iff)
  then show False
    by (simp add: lower_hex_def)
qed

lemma reference_no_space:
  assumes "(\<exists>n. pullNumber c = Some n \<and> is_pull_number n)
           \<or> (pullNumber c = None \<and> is_full_hash (sha c))"
  shows "CHR '' '' \<notin> set (getReferenceLong c)"
proof -
  have "CHR '' '' \<notin> set (take 7 (sha c))" if "is_full_hash (sha c)"
    using that hex_no_space [of "sha c"] by (auto simp: is_full_hash_def dest: in_set_takeD)
  with assms show ?thesis
    using number_to_string_no_space
    by (auto simp: getReferenceLong_def getShortSha_def truthy_number_def is_pull_number_def)
qed

section \<open>ReferenceNaming: properties\<close>

text \<open>
  C7: for every commit with a present pull number (a pull number of the data model), the
  short reference is \<open>#\<close> followed by the number; for every commit without one, it is
  the first seven characters of the sha, which for a full hash are seven lowercase
  hexadecimal digits. In both cases it is the reference the specification describes.
\<close>

theorem shortReference_correct:
  assumes "pull_number_ok c"
  shows "(\<forall>n. pullNumber c = Some n \<longrightarrow> getReferenceLong c = ''#'' @ number_to_string n) \<and>
   (pullNumber c = None \<longrightarrow>
      getReferenceLong c = take 7 (sha c) \<and> prefix (getReferenceLong c) (sha c) \<and>
      (is_full_hash (sha c) \<longrightarrow>
         length (getReferenceLong c) = 7 \<and> list_all lower_hex (getReferenceLong c))) \<and>
   getReferenceLong c = shortReference_spec c"
proof -
  have "list_all lower_hex (take 7 (sha c))" if "list_all lower_hex (sha c)"
    using that by (auto simp: list_all_iff dest: in_set_takeD)
  with assms show ?thesis
    by (auto simp: getReferenceLong_def truthy_number_def getShortSha_def is_full_hash_def
        take_is_prefix shortReference_spec_def pull_number_ok_def is_pull_number_def
        split: option.splits)
qed

text \<open>C7 on a commit with the pull number 10 and on a commit without one.\<close>

theorem shortReference_correct_witness:
  "getReferenceLong \<lparr>sha = ''abc1234def0123456789abcdef0123456789abcd'', message = ''Fix bug (#10)'', pullNumber = Some 10\<rparr> = ''#10''
   \<and> getReferenceLong \<lparr>sha = ''deadbeefcafe0123456789abcdef0123456789ab'', message = ''Fix bug'', pullNumber = None\<rparr> = ''deadbee''
   \<and> length (getReferenceLong \<lparr>sha = ''deadbeefcafe0123456789abcdef0123456789ab'', message = ''Fix bug'', pullNumber = None\<rparr>) = 7
   \<and> list_all lower_hex (getReferenceLong \<lparr>sha = ''deadbeefcafe0123456789abcdef0123456789ab'', message = ''Fix bug'', pullNumber = None\<rparr>)"
proof -
  have a: "pull_number_ok \<lparr>sha = ''abc1234def0123456789abcdef0123456789abcd'', message = ''Fix bug (#10)'', pullNumber = Some 10\<rparr>"
    and b: "pull_number_ok \<lparr>sha = ''deadbeefcafe0123456789abcdef0123456789ab'', message = ''Fix bug'', pullNumber = None\<rparr>"
    by (simp_all add: pull_number_ok_def is_pull_number_def)
  from shortReference_correct [OF a] shortReference_correct [OF b] show ?thesis
    by (simp add: is_full_hash_def lower_hex_def number_to_string_def decimal_digits.simps
        digit_char_def)
qed

lemma getReferenceShort_slug: "pull_number_ok c \<Longrightarrow> getReferenceShort c = shortSlug_spec c"
  by (auto simp: getReferenceShort_def shortSlug_spec_def truthy_number_def getShortSha_def
      pull_number_ok_def is_pull_number_def split: option.splits)

text \<open>
  C6: for every base branch and every list of commits (whose pull numbers, when present,
  are pull numbers of the data model), the feature branch name is
  \<open>backport/<baseBranch>/<slugs>\<close>, where the slugs are \<open>pr-<pullNumber>\<close> for a commit
  with a pull number and \<open>commit-<first seven characters of the sha>\<close> otherwise, joined
  with \<open>_\<close> and cut to 200 characters; the part after \<open>backport/<baseBranch>/\<close> is never
  longer than 200 characters; and the name is a function of the base branch and the commits
  alone.
\<close>

theorem featureBranchName_correct:
  assumes "\<forall>c \<in> set commits. pull_number_ok c"
  shows "getFeatureBranchName baseBranch commits = featureBranchName_spec baseBranch commits
   \<and> getFeatureBranchName baseBranch commits
       = ''backport/'' @ baseBranch @ ''/'' @ take 200 (join ''_''
           (map (\<lambda>c. case pullNumber c of
                       Some n \<Rightarrow> ''pr-'' @ number_to_string n
                     | None \<Rightarrow> ''commit-'' @ take 7 (sha c)) commits))
   \<and> length (drop (length (''backport/'' @ baseBranch @ ''/''))
         (getFeatureBranchName baseBranch commits)) \<le> 200
   \<and> (baseBranch' = baseBranch \<and> commits' = commits \<longrightarrow>
         getFeatureBranchName baseBranch' commits' = getFeatureBranchName baseBranch commits)"
proof -
  have same: "map getReferenceShort commits = map shortSlug_spec commits"
    using assms by (simp add: getReferenceShort_slug)
  have worded: "shortSlug_spec = (\<lambda>c. case pullNumber c of
                       Some n \<Rightarrow> ''pr-'' @ number_to_string n
                     | None \<Rightarrow> ''commit-'' @ take 7 (sha c))"
    by (rule ext) (simp add: shortSlug_spec_def)
  have a: "getFeatureBranchName baseBranch commits = featureBranchName_spec baseBranch commits"
    by (simp only: getFeatureBranchName_def featureBranchName_spec_def Let_def same)
  have b: "featureBranchName_spec baseBranch commits
       = ''backport/'' @ baseBranch @ ''/'' @ take 200 (join ''_''
           (map (\<lambda>c. case pullNumber c of
                       Some n \<Rightarrow> ''pr-'' @ number_to_string n
                     | None \<Rightarrow> ''commit-'' @ take 7 (sha c)) commits))"
    by (simp only: featureBranchName_spec_def worded)
  have c: "length (drop (length (''backport/'' @ baseBranch @ ''/''))
         (getFeatureBranchName baseBranch commits)) \<le> 200"
    by (simp add: getFeatureBranchName_def Let_def)
  show ?thesis
    using a b c by simp
qed

text \<open>C6 on the branch \<open>7.x\<close> with two commits, one with a pull number and one without.\<close>

theorem featureBranchName_correct_witness:
  "getFeatureBranchName ''7.x''
      [\<lparr>sha = ''abc1234def0123456789abcdef0123456789abcd'', message = ''Fix bug (#10)'', pullNumber = Some 10\<rparr>,
       \<lparr>sha = ''deadbeefcafe0123456789abcdef0123456789ab'', message = ''Fix bug'', pullNumber = None\<rparr>]
     = ''backport/7.x/pr-10_commit-deadbee''"
proof -
  let ?cs = "[\<lparr>sha = ''abc1234def0123456789abcdef0123456789abcd'', message = ''Fix bug (#10)'', pullNumber = Some 10\<rparr>,
       \<lparr>sha = ''deadbeefcafe0123456789abcdef0123456789ab'', message = ''Fix bug'', pullNumber = None\<rparr>]"
  have ok: "\<forall>c \<in> set ?cs. pull_number_ok c"
    by (simp add: pull_number_ok_def is_pull_number_def)
  from featureBranchName_correct [OF ok, of "''7.x''" "''7.x''" ?cs] show ?thesis
    by (simp add: featureBranchName_spec_def shortSlug_spec_def number_to_string_def
        decimal_digits.simps digit_char_def)
qed


text \<open>
  Against C5 as stated: \<^verbatim>\<open>replace\<close> with a string pattern removes the first occurrence
  only, so a message that holds \<open>(#42)\<close> twice gives a bullet that holds it twice, and the
  bullet is not the message with every occurrence stripped.
\<close>

theorem pullRequestBody_duplicate_counterexample:
  "commitRef \<lparr>sha = ''abc1234def0123456789abcdef0123456789abcd'', message = ''a (#42) b (#42)'', pullNumber = Some 42\<rparr>
     = '' - a  b (#42) (#42)''
   \<and> occurrences ''(#42)''
        (commitRef \<lparr>sha = ''abc1234def0123456789abcdef0123456789abcd'', message = ''a (#42) b (#42)'', pullNumber = Some 42\<rparr>) = 2
   \<and> '' - '' @ strip_all ''(#42)'' ''a (#42) b (#42)'' @ '' (#42)'' = '' - a  b  (#42)''"
  by (simp add: commitRef_def getReferenceLong_def truthy_number_def number_to_string_def
      decimal_digits.simps digit_char_def)

text \<open>
  C5, amended: the body is the header line and one bullet for each commit, in order, joined
  by newlines. With \<open>(<shortReference>)\<close> as the pattern, a bullet is the commit message
  with the first (leftmost) occurrence of the pattern removed, then a space and the
  pattern: a message without the pattern is kept whole, and a message \<open>pre @ pat @ post\<close>
  in which no occurrence starts inside \<open>pre\<close> gives \<open>pre @ post\<close>, the occurrences in
  \<open>post\<close> being kept. When the reference has no space in it, as is the case for the
  reference of a pull number and for the prefix of a full hash, the bullet holds the
  pattern once more than what is left of the message: exactly once when the message did
  not hold it or held it once so that nothing of it is left, at least twice when it occurs
  again after its first occurrence.
\<close>

theorem pullRequestBody_amended:
  assumes "ref = getReferenceLong c" and "pat = ''('' @ ref @ '')''"
  shows "body (getPullRequestPayload baseBranch commits username)
       = ''Backports the following commits to '' @ baseBranch @ '':'' @ [CHR 0x0A]
         @ join [CHR 0x0A] (map commitRef commits)
   \<and> (occurrences pat (message c) = 0 \<longrightarrow>
        commitRef c = '' - '' @ message c @ '' '' @ pat \<and>
        (CHR '' '' \<notin> set ref \<longrightarrow> occurrences pat (commitRef c) = 1))
   \<and> (message c = pre @ pat @ post \<and> (\<forall>i<length pre. \<not> prefix pat (drop i (message c))) \<longrightarrow>
        commitRef c = '' - '' @ pre @ post @ '' '' @ pat \<and>
        (CHR '' '' \<notin> set ref \<longrightarrow>
           occurrences pat (commitRef c) = Suc (occurrences pat (pre @ post)) \<and>
           (occurrences pat (pre @ post) = 0 \<longrightarrow> occurrences pat (commitRef c) = 1) \<and>
           (0 < occurrences pat post \<longrightarrow> 2 \<le> occurrences pat (commitRef c))))
   \<and> ((\<exists>n. pullNumber c = Some n \<and> is_pull_number n)
        \<or> (pullNumber c = None \<and> is_full_hash (sha c)) \<longrightarrow> CHR '' '' \<notin> set ref)"
proof -
  have bullet: "commitRef c = '' - '' @ replace pat [] (message c) @ '' '' @ pat"
    using assms by (simp add: commitRef_def Let_def)
  have count: "occurrences pat ('' - '' @ m @ '' '' @ pat) = Suc (occurrences pat m)"
    if "CHR '' '' \<notin> set ref" for m
    using occurrences_bullet [OF that, of m] assms(2) by simp
  have body: "body (getPullRequestPayload baseBranch commits username)
       = ''Backports the following commits to '' @ baseBranch @ '':'' @ [CHR 0x0A]
         @ join [CHR 0x0A] (map commitRef commits)"
    by (simp add: getPullRequestPayload_def Let_def)
  have absent: "commitRef c = '' - '' @ message c @ '' '' @ pat \<and>
        (CHR '' '' \<notin> set ref \<longrightarrow> occurrences pat (commitRef c) = 1)"
    if "occurrences pat (message c) = 0"
    using that count [of "message c"] by (simp add: bullet replace_absent)
  have first: "commitRef c = '' - '' @ pre @ post @ '' '' @ pat \<and>
        (CHR '' '' \<notin> set ref \<longrightarrow>
           occurrences pat (commitRef c) = Suc (occurrences pat (pre @ post)) \<and>
           (occurrences pat (pre @ post) = 0 \<longrightarrow> occurrences pat (commitRef c) = 1) \<and>
           (0 < occurrences pat post \<longrightarrow> 2 \<le> occurrences pat (commitRef c)))"
    if m: "message c = pre @ pat @ post"
      and left: "\<forall>i<length pre. \<not> prefix pat (drop i (message c))"
  proof -
    have "replace pat [] (message c) = pre @ [] @ post"
      unfolding m using left [unfolded m] by (rule replace_leftmost)
    then have b: "commitRef c = '' - '' @ pre @ post @ '' '' @ pat"
      by (simp add: bullet)
    have "occurrences pat (commitRef c) = Suc (occurrences pat (pre @ post))"
      if "CHR '' '' \<notin> set ref"
      using count [OF that, of "pre @ post"] b by simp
    then show ?thesis
      using b occurrences_suffix [of pat post pre] by auto
  qed
  have no_space: "CHR '' '' \<notin> set ref"
    if "(\<exists>n. pullNumber c = Some n \<and> is_pull_number n)
        \<or> (pullNumber c = None \<and> is_full_hash (sha c))"
    using reference_no_space [OF that] assms(1) by simp
  show ?thesis
    using body absent first no_space by blast
qed

text \<open>
  C5 with the pull number 42 on the messages \<open>Fix bug (#42)\<close>, \<open>a (#42) b (#42)\<close> and
  \<open>Clean up\<close>.
\<close>

theorem pullRequestBody_amended_witness:
  "commitRef \<lparr>sha = ''abc1234def0123456789abcdef0123456789abcd'', message = ''Fix bug (#42)'', pullNumber = Some 42\<rparr>
     = '' - Fix bug  (#42)''
   \<and> occurrences ''(#42)''
        (commitRef \<lparr>sha = ''abc1234def0123456789abcdef0123456789abcd'', message = ''Fix bug (#42)'', pullNumber = Some 42\<rparr>) = 1
   \<and> commitRef \<lparr>sha = ''abc1234def0123456789abcdef0123456789abcd'', message = ''a (#42) b (#42)'', pullNumber = Some 42\<rparr>
     = '' - a  b (#42) (#42)''
   \<and> 2 \<le> occurrences ''(#42)''
        (commitRef \<lparr>sha = ''abc1234def0123456789abcdef0123456789abcd'', message = ''a (#42) b (#42)'', pullNumber = Some 42\<rparr>)
   \<and> commitRef \<lparr>sha = ''abc1234def0123456789abcdef0123456789abcd'', message = ''Clean up'', pullNumber = Some 42\<rparr>
     = '' - Clean up (#42)''"
proof -
  let ?once = "\<lparr>sha = ''abc1234def0123456789abcdef0123456789abcd'', message = ''Fix bug (#42)'', pullNumber = Some 42\<rparr>"
  let ?twice = "\<lparr>sha = ''abc1234def0123456789abcdef0123456789abcd'', message = ''a (#42) b (#42)'', pullNumber = Some 42\<rparr>"
  let ?never = "\<lparr>sha = ''abc1234def0123456789abcdef0123456789abcd'', message = ''Clean up'', pullNumber = Some 42\<rparr>"
  have ref: "''#42'' = getReferenceLong ?once" "''#42'' = getReferenceLong ?twice"
    "''#42'' = getReferenceLong ?never"
    by (simp_all add: getReferenceLong_def truthy_number_def number_to_string_def
        decimal_digits.simps digit_char_def)
  have pat: "''(#42)'' = ''('' @ ''#42'' @ '')''"
    by simp
  have once: "message ?once = ''Fix bug '' @ ''(#42)'' @ []
      \<and> (\<forall>i<length ''Fix bug ''. \<not> prefix ''(#42)'' (drop i (message ?once)))"
    by (simp add: All_less_Suc)
  have twice: "message ?twice = ''a '' @ ''(#42)'' @ '' b (#42)''
      \<and> (\<forall>i<length ''a ''. \<not> prefix ''(#42)'' (drop i (message ?twice)))"
    by (simp add: All_less_Suc)
  have never: "occurrences ''(#42)'' (message ?never) = 0"
    by simp
  have valid: "is_pull_number 42"
    by (simp add: is_pull_number_def)
  from pullRequestBody_amended [OF ref(1) pat, of _ _ _ "''Fix bug ''" "[]"]
    pullRequestBody_amended [OF ref(2) pat, of _ _ _ "''a ''" "'' b (#42)''"]
    pullRequestBody_amended [OF ref(3) pat]
    once twice never valid
  show ?thesis
    by simp
qed

section \<open>The orchestration: supporting lemmas\<close>

subsection \<open>Awaiting\<close>

lemma await_assoc: "await (await p f) g = await p (\<lambda>v. await (f v) g)"
  by (rule ext) (simp add: await_def split: option.splits prod.splits sum.splits)

lemma await_resolved: "await (\<lambda>s. Some (Inr v, s)) k = k v"
  by (rule ext) (simp add: await_def)

lemma await_rejects: "p s = Some (Inl e, s1) \<Longrightarrow> await p k s = Some (Inl e, s1)"
  by (simp add: await_def)

lemma await_resolves: "p s = Some (Inr v, s1) \<Longrightarrow> await p k s = k v s1"
  by (simp add: await_def)

subsection \<open>The fold of \<open>sequentially\<close>\<close>

lemma sequentially_Nil: "sequentially [] handler s = Some (Inr Undefined, s)"
  by (simp add: sequentially_def)

lemma foldl_await:
  "foldl (\<lambda>p item. await p (\<lambda>_. handler item)) p items
     = await p (\<lambda>v. if items = [] then (\<lambda>s. Some (Inr v, s))
                     else foldl (\<lambda>p item. await p (\<lambda>_. handler item)) (\<lambda>s. Some (Inr Undefined, s)) items)"
proof (induction items arbitrary: p)
  case Nil
  show ?case
    by (rule ext) (simp add: await_def split: option.splits prod.splits sum.splits)
next
  case (Cons x xs)
  let ?step = "\<lambda>p item. await p (\<lambda>_. handler item)"
  let ?init = "\<lambda>s. Some (Inr Undefined, s)"
  let ?k = "\<lambda>v. if xs = [] then (\<lambda>s. Some (Inr v, s)) else foldl ?step ?init xs"
  have "foldl ?step p (x # xs) = await (await p (\<lambda>_. handler x)) ?k"
    using Cons.IH [of "await p (\<lambda>_. handler x)"] by simp
  also have "\<dots> = await p (\<lambda>_. await (handler x) ?k)"
    by (simp add: await_assoc)
  also have "await (handler x) ?k = foldl ?step ?init (x # xs)"
    using Cons.IH [of "await ?init (\<lambda>_. handler x)"] by (simp add: await_resolved)
  finally show ?case by simp
qed

lemma sequentially_Cons:
  "sequentially (x # xs) handler
     = await (handler x) (\<lambda>v. if xs = [] then (\<lambda>s. Some (Inr v, s)) else sequentially xs handler)"
  unfolding sequentially_def
  by (simp add: await_resolved) (rule foldl_await)

lemma sequentially_snoc:
  "sequentially (xs @ [x]) handler = await (sequentially xs handler) (\<lambda>_. handler x)"
  by (simp add: sequentially_def)

text \<open>When the handler resolves with \<open>undefined\<close> only, so does the fold, and the head unfolds evenly.\<close>

lemma sequentially_Cons_undefined:
  assumes "\<And>x s v s1. handler x s = Some (Inr v, s1) \<Longrightarrow> v = Undefined"
  shows "sequentially (x # xs) handler s = await (handler x) (\<lambda>_. sequentially xs handler) s"
proof (cases "handler x s")
  case None
  then show ?thesis by (simp add: sequentially_Cons await_def)
next
  case (Some a)
  obtain r s1 where a: "a = (r, s1)" by (cases a)
  show ?thesis
  proof (cases r)
    case (Inl e)
    with Some a show ?thesis by (simp add: sequentially_Cons await_def)
  next
    case (Inr v)
    with Some a assms have "v = Undefined" by blast
    with Some a Inr show ?thesis
      by (simp add: sequentially_Cons await_def sequentially_Nil)
  qed
qed


subsection \<open>The confirmation loop\<close>

lemma round_events_Suc:
  "round_events owner repoName (Suc n)
     = [ConfirmConflictResolved, IsIndexDirty owner repoName] @ round_events owner repoName n"
  by (simp add: round_events_def)

lemma round_events_snoc:
  "round_events owner repoName (Suc n)
     = round_events owner repoName n @ [ConfirmConflictResolved, IsIndexDirty owner repoName]"
  unfolding round_events_def
  by (induction n) simp_all

lemma confirm_denied:
  assumes "confirmConflictResolved env (world s) = (Inr False, w1)"
  shows "confirmResolvedRecursive env owner repoName s
     = Some (Inl (HandledError ''Application was aborted.''),
         \<lparr>trace = trace s @ [ConfirmConflictResolved], world = w1\<rparr>)"
  using assms by (subst confirmResolvedRecursive.simps) (simp add: call_def)

lemma confirm_clean:
  assumes "confirmConflictResolved env (world s) = (Inr True, w1)"
    and "isIndexDirty env owner repoName w1 = (Inr False, w2)"
  shows "confirmResolvedRecursive env owner repoName s
     = Some (Inr (),
         \<lparr>trace = trace s @ [ConfirmConflictResolved, IsIndexDirty owner repoName], world = w2\<rparr>)"
  using assms by (subst confirmResolvedRecursive.simps) (simp add: call_def)

lemma confirm_dirty:
  assumes "confirmConflictResolved env (world s) = (Inr True, w1)"
    and "isIndexDirty env owner repoName w1 = (Inr True, w2)"
  shows "confirmResolvedRecursive env owner repoName s
     = confirmResolvedRecursive env owner repoName
         \<lparr>trace = trace s @ [ConfirmConflictResolved, IsIndexDirty owner repoName], world = w2\<rparr>"
  using assms by (subst confirmResolvedRecursive.simps) (simp add: call_def)

lemma confirm_rounds:
  "dirty_rounds env owner repoName n (world s) = Some w \<Longrightarrow>
   confirmResolvedRecursive env owner repoName s
     = confirmResolvedRecursive env owner repoName
         \<lparr>trace = trace s @ round_events owner repoName n, world = w\<rparr>"
proof (induction n arbitrary: s)
  case 0
  then show ?case by (cases s) (simp add: round_events_def)
next
  case (Suc n)
  from Suc.prems obtain w1 w2 where
    c: "confirmConflictResolved env (world s) = (Inr True, w1)" and
    d: "isIndexDirty env owner repoName w1 = (Inr True, w2)" and
    r: "dirty_rounds env owner repoName n w2 = Some w"
    by (auto split: prod.splits sum.splits bool.splits)
  let ?s2 = "\<lparr>trace = trace s @ [ConfirmConflictResolved, IsIndexDirty owner repoName], world = w2\<rparr>"
  have "confirmResolvedRecursive env owner repoName s = confirmResolvedRecursive env owner repoName ?s2"
    using c d by (rule confirm_dirty)
  also have "\<dots> = confirmResolvedRecursive env owner repoName
       \<lparr>trace = trace ?s2 @ round_events owner repoName n, world = w\<rparr>"
    using r by (intro Suc.IH) simp
  finally show ?case by (simp add: round_events_Suc)
qed

lemma confirm_succeeds_only_after_clean:
  assumes "confirmResolvedRecursive env owner repoName s = Some (Inr (), s')"
  shows "\<exists>n w w1. dirty_rounds env owner repoName n (world s) = Some w \<and>
        confirmConflictResolved env w = (Inr True, w1) \<and>
        isIndexDirty env owner repoName w1 = (Inr False, world s') \<and>
        trace s' = trace s @ round_events owner repoName (Suc n)"
proof -
  let ?P = "\<lambda>(env :: 'a env) owner repoName s (y :: (js_error + unit) \<times> 'a state).
     \<forall>s'. y = (Inr (), s') \<longrightarrow>
     (\<exists>n w w1. dirty_rounds env owner repoName n (world s) = Some w \<and>
        confirmConflictResolved env w = (Inr True, w1) \<and>
        isIndexDirty env owner repoName w1 = (Inr False, world s') \<and>
        trace s' = trace s @ round_events owner repoName (Suc n))"
  have "?P env owner repoName s (Inr (), s')"
  proof (rule confirmResolvedRecursive.raw_induct [where P = ?P, OF _ assms], goal_cases)
    case (1 f env owner repoName s y)
    show ?case
    proof (intro allI impI)
      fix s'
      assume y: "y = (Inr (), s')"
      obtain r1 w1 where c: "confirmConflictResolved env (world s) = (r1, w1)"
        by (cases "confirmConflictResolved env (world s)")
      with 1(2) y have r1: "r1 = Inr True"
        by (auto simp: call_def split: sum.splits if_splits)
      obtain r2 w2 where d: "isIndexDirty env owner repoName w1 = (r2, w2)"
        by (cases "isIndexDirty env owner repoName w1")
      let ?s2 = "\<lparr>trace = trace s @ [ConfirmConflictResolved, IsIndexDirty owner repoName], world = w2\<rparr>"
      from 1(2) y c r1 d consider
        (clean) "r2 = Inr False" "s' = ?s2" |
        (again) "r2 = Inr True" "f env owner repoName ?s2 = Some y"
        by (auto simp: call_def split: sum.splits if_splits)
      then show "\<exists>n w w1. dirty_rounds env owner repoName n (world s) = Some w \<and>
          confirmConflictResolved env w = (Inr True, w1) \<and>
          isIndexDirty env owner repoName w1 = (Inr False, world s') \<and>
          trace s' = trace s @ round_events owner repoName (Suc n)"
      proof cases
        case clean
        have "dirty_rounds env owner repoName 0 (world s) = Some (world s)" by simp
        moreover have "trace s' = trace s @ round_events owner repoName (Suc 0)"
          using clean by (simp add: round_events_def)
        moreover have "isIndexDirty env owner repoName w1 = (Inr False, world s')"
          using clean d by simp
        ultimately show ?thesis
          using c r1 by blast
      next
        case again
        from 1(1) [OF again(2)] y obtain n w w1' where
          n: "dirty_rounds env owner repoName n w2 = Some w"
            "confirmConflictResolved env w = (Inr True, w1')"
            "isIndexDirty env owner repoName w1' = (Inr False, world s')"
            "trace s' = trace ?s2 @ round_events owner repoName (Suc n)"
          by auto
        have "dirty_rounds env owner repoName (Suc n) (world s) = Some w"
          using c r1 d again(1) n(1) by simp
        moreover have "trace s' = trace s @ round_events owner repoName (Suc (Suc n))"
          using n(4) by (simp add: round_events_Suc)
        ultimately show ?thesis
          using n(2,3) by blast
      qed
    qed
  qed
  then show ?thesis by simp
qed

lemma confirm_trace:
  assumes "confirmResolvedRecursive env owner repoName s = Some y"
  shows "\<exists>evs. trace (snd y) = trace s @ evs \<and>
     set evs \<subseteq> {ConfirmConflictResolved, IsIndexDirty owner repoName}"
proof -
  let ?P = "\<lambda>(env :: 'a env) owner repoName s (y :: (js_error + unit) \<times> 'a state).
     \<exists>evs. trace (snd y) = trace s @ evs \<and>
       set evs \<subseteq> {ConfirmConflictResolved, IsIndexDirty owner repoName}"
  show ?thesis
  proof (rule confirmResolvedRecursive.raw_induct [where P = ?P, OF _ assms], goal_cases)
    case (1 f env owner repoName s y)
    obtain r1 w1 where c: "confirmConflictResolved env (world s) = (r1, w1)"
      by (cases "confirmConflictResolved env (world s)")
    obtain r2 w2 where d: "isIndexDirty env owner repoName w1 = (r2, w2)"
      by (cases "isIndexDirty env owner repoName w1")
    let ?s2 = "\<lparr>trace = trace s @ [ConfirmConflictResolved, IsIndexDirty owner repoName], world = w2\<rparr>"
    from 1(2) c d consider
      (one) "trace (snd y) = trace s @ [ConfirmConflictResolved]" |
      (two) "trace (snd y) = trace s @ [ConfirmConflictResolved, IsIndexDirty owner repoName]" |
      (again) "f env owner repoName ?s2 = Some y"
      by (auto simp: call_def split: sum.splits if_splits)
    then show ?case
    proof cases
      case one
      then show ?thesis by simp
    next
      case two
      then show ?thesis by simp
    next
      case again
      from 1(1) [OF again] obtain evs where
        "trace (snd y) = trace ?s2 @ evs" "set evs \<subseteq> {ConfirmConflictResolved, IsIndexDirty owner repoName}"
        by blast
      then have "trace (snd y) = trace s @ ([ConfirmConflictResolved, IsIndexDirty owner repoName] @ evs)
         \<and> set ([ConfirmConflictResolved, IsIndexDirty owner repoName] @ evs)
             \<subseteq> {ConfirmConflictResolved, IsIndexDirty owner repoName}"
        by simp
      then show ?thesis by blast
    qed
  qed
qed


subsection \<open>One cherry-pick\<close>

lemma cherrypick_clean:
  assumes "cherrypick env owner repoName commit_sha (world s) = (Inr u, w1)"
  shows "cherrypickAndConfirm env owner repoName commit_sha s
     = Some (Inr (), \<lparr>trace = trace s @ [SpinnerStart (Some ''Cherry-picking commit''),
           Cherrypick owner repoName commit_sha, SpinnerSucceed], world = w1\<rparr>)"
  using assms
  by (simp add: cherrypickAndConfirm_def withSpinner_def call_def emit_def truthy_string_def)

lemma cherrypick_failed:
  assumes "cherrypick env owner repoName commit_sha (world s) = (Inl e, w1)"
  shows "cherrypickAndConfirm env owner repoName commit_sha s
     = (let s1 = \<lparr>trace = trace s @ [SpinnerStart (Some ''Cherry-picking commit''),
                    Cherrypick owner repoName commit_sha,
                    SpinnerText (''Cherry-picking failed. Please resolve conflicts in: ''
                      @ getRepoPath env owner repoName),
                    SpinnerFail], world = w1\<rparr>
        in case e_cmd e of
             None \<Rightarrow> Some (Inl (TypeError includes_of_undefined), s1)
           | Some cmd \<Rightarrow>
               if includes_str cmd ''git cherry-pick''
               then confirmResolvedRecursive env owner repoName s1
               else Some (Inl e, s1))"
  using assms
  by (simp add: cherrypickAndConfirm_def withSpinner_def call_def emit_def Let_def
      split: option.splits)


lemma sequentially_append:
  assumes "ys \<noteq> []"
  shows "sequentially (xs @ ys) handler = await (sequentially xs handler) (\<lambda>_. sequentially ys handler)"
proof -
  let ?step = "\<lambda>p item. await p (\<lambda>_. handler item)"
  have "sequentially (xs @ ys) handler = foldl ?step (sequentially xs handler) ys"
    by (simp add: sequentially_def)
  also have "\<dots> = await (sequentially xs handler)
      (\<lambda>v. if ys = [] then (\<lambda>s. Some (Inr v, s)) else sequentially ys handler)"
    unfolding sequentially_def by (rule foldl_await)
  finally show ?thesis
    using assms by simp
qed

subsection \<open>What each step adds to the trace\<close>

lemma pull_trace:
  assumes "pullLatestChanges env owner repoName baseBranch featureBranch s = Some (r, s1)"
  shows "\<exists>evs. trace s1 = trace s @ evs \<and> filter is_cherrypick evs = [] \<and> filter is_publish evs = []"
  using assms
  by (auto simp: pullLatestChanges_def withSpinner_def await_def call_def emit_def
      split: option.splits prod.splits sum.splits if_splits)

lemma pick_trace:
  assumes "cherrypickAndConfirm env owner repoName commit_sha s = Some (r, s1)"
  shows "\<exists>evs. trace s1 = trace s @ evs \<and>
     filter is_cherrypick evs = [Cherrypick owner repoName commit_sha] \<and> filter is_publish evs = []"
proof -
  obtain r0 w1 where c: "cherrypick env owner repoName commit_sha (world s) = (r0, w1)"
    by (cases "cherrypick env owner repoName commit_sha (world s)")
  show ?thesis
  proof (cases r0)
    case (Inr u)
    with c assms show ?thesis
      by (auto simp: cherrypick_clean)
  next
    case (Inl e)
    let ?s1 = "\<lparr>trace = trace s @ [SpinnerStart (Some ''Cherry-picking commit''),
                    Cherrypick owner repoName commit_sha,
                    SpinnerText (''Cherry-picking failed. Please resolve conflicts in: ''
                      @ getRepoPath env owner repoName),
                    SpinnerFail], world = w1\<rparr>"
    from c Inl assms consider
      (stop) "s1 = ?s1" |
      (loop) "confirmResolvedRecursive env owner repoName ?s1 = Some (r, s1)"
      by (auto simp: cherrypick_failed Let_def split: option.splits if_splits)
    then show ?thesis
    proof cases
      case stop
      then show ?thesis by simp
    next
      case loop
      from confirm_trace [OF loop] obtain evs where
        evs: "trace s1 = trace ?s1 @ evs" "set evs \<subseteq> {ConfirmConflictResolved, IsIndexDirty owner repoName}"
        by auto
      from evs(2) have "filter is_cherrypick evs = []" "filter is_publish evs = []"
        by (auto simp: filter_empty_conv)
      with evs(1) show ?thesis by simp
    qed
  qed
qed

lemma commit_handler_undefined:
  "await (cherrypickAndConfirm env owner repoName commit_sha) (\<lambda>_ s. Some (Inr Undefined, s)) s
     = Some (Inr v, s1) \<Longrightarrow> v = Undefined"
  by (auto simp: await_def split: option.splits prod.splits sum.splits)

lemma series_Cons:
  "cherrypickCommits env owner repoName (c # cs) s
     = await (cherrypickAndConfirm env owner repoName (sha c))
         (\<lambda>_. cherrypickCommits env owner repoName cs) s"
proof -
  have "cherrypickCommits env owner repoName (c # cs) s
      = await (await (cherrypickAndConfirm env owner repoName (sha c)) (\<lambda>_ s. Some (Inr Undefined, s)))
          (\<lambda>_. cherrypickCommits env owner repoName cs) s"
    unfolding cherrypickCommits_def
    by (rule sequentially_Cons_undefined) (rule commit_handler_undefined)
  then show ?thesis
    by (simp add: await_assoc await_resolved)
qed

lemma series_trace:
  "cherrypickCommits env owner repoName cs s = Some (Inr v, s1) \<Longrightarrow>
   \<exists>evs. trace s1 = trace s @ evs \<and>
     filter is_cherrypick evs = map (\<lambda>c. Cherrypick owner repoName (sha c)) cs \<and>
     filter is_publish evs = []"
proof (induction cs arbitrary: s)
  case Nil
  then show ?case
    by (simp add: cherrypickCommits_def sequentially_Nil)
next
  case (Cons c cs)
  from Cons.prems obtain u s2 where
    first: "cherrypickAndConfirm env owner repoName (sha c) s = Some (Inr u, s2)" and
    rest: "cherrypickCommits env owner repoName cs s2 = Some (Inr v, s1)"
    by (auto simp: series_Cons await_def split: option.splits prod.splits sum.splits)
  from pick_trace [OF first] obtain evs1 where
    evs1: "trace s2 = trace s @ evs1" "filter is_cherrypick evs1 = [Cherrypick owner repoName (sha c)]"
      "filter is_publish evs1 = []"
    by blast
  from Cons.IH [OF rest] obtain evs2 where
    evs2: "trace s1 = trace s2 @ evs2"
      "filter is_cherrypick evs2 = map (\<lambda>c. Cherrypick owner repoName (sha c)) cs"
      "filter is_publish evs2 = []"
    by blast
  have "trace s1 = trace s @ (evs1 @ evs2) \<and>
     filter is_cherrypick (evs1 @ evs2) = map (\<lambda>c. Cherrypick owner repoName (sha c)) (c # cs) \<and>
     filter is_publish (evs1 @ evs2) = []"
    using evs1 evs2 by simp
  then show ?case by blast
qed

lemma series_first_failure:
  assumes "cherrypickCommits env owner repoName (take k cs) s1 = Some (Inr v, s2)"
    and "k < length cs"
    and "cherrypickAndConfirm env owner repoName (sha (cs ! k)) s2 = Some (Inl e, s3)"
  shows "cherrypickCommits env owner repoName cs s1 = Some (Inl e, s3)"
proof -
  have cs: "cs = take k cs @ (cs ! k # drop (Suc k) cs)"
    using assms(2) by (simp add: id_take_nth_drop)
  have "cherrypickCommits env owner repoName cs s1
      = await (cherrypickCommits env owner repoName (take k cs))
          (\<lambda>_. cherrypickCommits env owner repoName (cs ! k # drop (Suc k) cs)) s1"
    unfolding cherrypickCommits_def
    by (subst cs, subst sequentially_append) simp_all
  also have "\<dots> = cherrypickCommits env owner repoName (cs ! k # drop (Suc k) cs) s2"
    using assms(1) by (simp add: await_def)
  also have "\<dots> = Some (Inl e, s3)"
    using assms(3) by (simp add: series_Cons await_def)
  finally show ?thesis .
qed

subsection \<open>The coordinator, branch by branch\<close>

lemma coordinator_step:
  "doBackportVersions env owner repoName commits (b # bs) username labels s
     = (case doBackportVersion env owner repoName commits b username labels s of
          None \<Rightarrow> None
        | Some (Inr pullRequest, s1) \<Rightarrow>
            doBackportVersions env owner repoName commits bs username labels
              (emit (Log (''View pull request: '' @ html_url pullRequest @ [CHR 0x0A])) s1)
        | Some (Inl e, s1) \<Rightarrow>
            if e_name e = ''HandledError''
            then doBackportVersions env owner repoName commits bs username labels
                   (emit (ConsoleError (e_message e)) s1)
            else Some (Inl e, emit (ConsoleErrorValue e) s1))"
  unfolding doBackportVersions_def
  by (subst sequentially_Cons_undefined)
    (auto simp: await_def handleErrors_def split: option.splits prod.splits sum.splits if_splits)

lemma coordinator_undefined:
  "doBackportVersions env owner repoName commits bs username labels s = Some (Inr v, s1)
     \<Longrightarrow> v = Undefined"
proof (induction bs arbitrary: s)
  case Nil
  then show ?case by (simp add: doBackportVersions_def sequentially_Nil)
next
  case (Cons b bs)
  from Cons.prems show ?case
    by (auto simp: coordinator_step dest: Cons.IH
        split: option.splits prod.splits sum.splits if_splits)
qed

lemma coordinator_append:
  "doBackportVersions env owner repoName commits (pre @ bs) username labels s
     = await (doBackportVersions env owner repoName commits pre username labels)
         (\<lambda>_. doBackportVersions env owner repoName commits bs username labels) s"
proof (induction pre arbitrary: s)
  case Nil
  show ?case
    by (simp add: await_def) (simp add: doBackportVersions_def sequentially_Nil)
next
  case (Cons b pre)
  show ?case
    by (simp add: coordinator_step Cons.IH await_def
        split: option.splits prod.splits sum.splits)
qed

section \<open>The orchestration: properties\<close>

lemmas scripted_simps = scripted_def start_def conflict_def network_error_def api_error_def
  command_failure_def fix10_def cleanup_def

text \<open>
  C4: in the confirmation loop, when the operator has confirmed and the working tree is
  still dirty the loop prompts again, and cherry-pick is not invoked again. After \<open>n\<close> such
  rounds, the loop returns as soon as the operator denies (it fails with the abort error)
  or confirms on a clean tree (it succeeds): it has prompted \<open>n + 1\<close> times, so exactly once
  when the first confirmation meets a clean tree. It succeeds only when a confirmation is
  followed by a clean check.
\<close>

theorem conflict_loop:
  assumes "dirty_rounds env owner repoName n (world s) = Some w"
    and "confirmConflictResolved env w = (Inr res, w1)"
    and "res \<longrightarrow> isIndexDirty env owner repoName w1 = (Inr False, w2)"
  shows "confirmResolvedRecursive env owner repoName s =
       (if res then
          Some (Inr (), \<lparr>trace = trace s @ round_events owner repoName (Suc n), world = w2\<rparr>)
        else
          Some (Inl (HandledError ''Application was aborted.''),
            \<lparr>trace = trace s @ round_events owner repoName n @ [ConfirmConflictResolved],
             world = w1\<rparr>))
     \<and> filter is_cherrypick (round_events owner repoName (Suc n)) = []
     \<and> length (filter (\<lambda>ev. ev = ConfirmConflictResolved) (round_events owner repoName (Suc n)))
         = Suc n
     \<and> (\<forall>s'. confirmResolvedRecursive env owner repoName s = Some (Inr (), s') \<longrightarrow>
          (\<exists>m v v1. dirty_rounds env owner repoName m (world s) = Some v \<and>
             confirmConflictResolved env v = (Inr True, v1) \<and>
             isIndexDirty env owner repoName v1 = (Inr False, world s')))"
proof -
  let ?s = "\<lparr>trace = trace s @ round_events owner repoName n, world = w\<rparr>"
  have unroll: "confirmResolvedRecursive env owner repoName s
      = confirmResolvedRecursive env owner repoName ?s"
    using assms(1) by (rule confirm_rounds)
  have outcome: "confirmResolvedRecursive env owner repoName s =
       (if res then
          Some (Inr (), \<lparr>trace = trace s @ round_events owner repoName (Suc n), world = w2\<rparr>)
        else
          Some (Inl (HandledError ''Application was aborted.''),
            \<lparr>trace = trace s @ round_events owner repoName n @ [ConfirmConflictResolved],
             world = w1\<rparr>))"
  proof (cases res)
    case True
    with assms(2,3) have "confirmResolvedRecursive env owner repoName ?s
        = Some (Inr (), \<lparr>trace = trace ?s @ [ConfirmConflictResolved, IsIndexDirty owner repoName],
            world = w2\<rparr>)"
      by (intro confirm_clean) simp_all
    with unroll True show ?thesis
      by (simp add: round_events_snoc)
  next
    case False
    with assms(2) have "confirmResolvedRecursive env owner repoName ?s
        = Some (Inl (HandledError ''Application was aborted.''),
            \<lparr>trace = trace ?s @ [ConfirmConflictResolved], world = w1\<rparr>)"
      by (intro confirm_denied) simp
    with unroll False show ?thesis by simp
  qed
  have no_pick: "filter is_cherrypick (round_events owner repoName k) = []" for k
    by (induction k) (simp_all add: round_events_def)
  have prompts: "length (filter (\<lambda>ev. ev = ConfirmConflictResolved) (round_events owner repoName k)) = k"
    for k
    by (induction k) (simp_all add: round_events_def)
  have only_if: "\<exists>m v v1. dirty_rounds env owner repoName m (world s) = Some v \<and>
             confirmConflictResolved env v = (Inr True, v1) \<and>
             isIndexDirty env owner repoName v1 = (Inr False, world s')"
    if "confirmResolvedRecursive env owner repoName s = Some (Inr (), s')" for s'
    using confirm_succeeds_only_after_clean [OF that] by blast
  show ?thesis
    using outcome no_pick prompts only_if by blast
qed

text \<open>
  C4 on an operator who confirms three times, the tree being clean at the third check, and
  on one who confirms once on a clean tree.
\<close>

theorem conflict_loop_witness:
  "confirmResolvedRecursive scripted ''o'' ''r''
      (start \<lparr>picks = [], answers = [True, True, True], dirty = [True, True, False], posts = []\<rparr>)
     = Some (Inr (),
         \<lparr>trace = [ConfirmConflictResolved, IsIndexDirty ''o'' ''r'',
                   ConfirmConflictResolved, IsIndexDirty ''o'' ''r'',
                   ConfirmConflictResolved, IsIndexDirty ''o'' ''r''],
          world = \<lparr>picks = [], answers = [], dirty = [], posts = []\<rparr>\<rparr>)
   \<and> confirmResolvedRecursive scripted ''o'' ''r''
      (start \<lparr>picks = [], answers = [True], dirty = [False], posts = []\<rparr>)
     = Some (Inr (),
         \<lparr>trace = [ConfirmConflictResolved, IsIndexDirty ''o'' ''r''],
          world = \<lparr>picks = [], answers = [], dirty = [], posts = []\<rparr>\<rparr>)"
  using conflict_loop [of scripted "''o''" "''r''" "Suc (Suc 0)"
      "start \<lparr>picks = [], answers = [True, True, True], dirty = [True, True, False], posts = []\<rparr>"
      "\<lparr>picks = [], answers = [True], dirty = [False], posts = []\<rparr>"
      True
      "\<lparr>picks = [], answers = [], dirty = [False], posts = []\<rparr>"
      "\<lparr>picks = [], answers = [], dirty = [], posts = []\<rparr>"]
    conflict_loop [of scripted "''o''" "''r''" 0
      "start \<lparr>picks = [], answers = [True], dirty = [False], posts = []\<rparr>"
      "\<lparr>picks = [], answers = [True], dirty = [False], posts = []\<rparr>"
      True
      "\<lparr>picks = [], answers = [], dirty = [False], posts = []\<rparr>"
      "\<lparr>picks = [], answers = [], dirty = [], posts = []\<rparr>"]
  by (simp add: scripted_def start_def round_events_def)

text \<open>
  C10: when the cherry-pick step raises an error that has no \<^verbatim>\<open>cmd\<close> property, reading
  \<^verbatim>\<open>e.cmd.includes\<close> raises a type error: \<^verbatim>\<open>cherrypickAndConfirm\<close> rejects with that type
  error and not with the original error, and the operator is not prompted.
\<close>

theorem classifier_type_error:
  assumes "cherrypick env owner repoName commit_sha (world s) = (Inl e, w1)"
    and "e_cmd e = None"
  shows "cherrypickAndConfirm env owner repoName commit_sha s
       = Some (Inl (TypeError includes_of_undefined),
           \<lparr>trace = trace s @ pick_failed env owner repoName commit_sha, world = w1\<rparr>)
     \<and> e_name (TypeError includes_of_undefined) = ''TypeError''
     \<and> filter (\<lambda>ev. ev = ConfirmConflictResolved) (pick_failed env owner repoName commit_sha) = []
     \<and> (e_name e \<noteq> ''TypeError'' \<longrightarrow> TypeError includes_of_undefined \<noteq> e)"
  using assms by (auto simp: cherrypick_failed TypeError_def pick_failed_def)

text \<open>C10 on a cherry-pick that fails with a network error.\<close>

theorem classifier_type_error_witness:
  "cherrypickAndConfirm scripted ''o'' ''r'' (sha cleanup)
      (start \<lparr>picks = [Some network_error], answers = [], dirty = [], posts = []\<rparr>)
     = Some (Inl (TypeError includes_of_undefined),
         \<lparr>trace = [SpinnerStart (Some ''Cherry-picking commit''),
              Cherrypick ''o'' ''r'' (sha cleanup),
              SpinnerText ''Cherry-picking failed. Please resolve conflicts in: /repositories/o/r'',
              SpinnerFail],
          world = \<lparr>picks = [], answers = [], dirty = [], posts = []\<rparr>\<rparr>)
   \<and> TypeError includes_of_undefined \<noteq> network_error"
  using classifier_type_error [of scripted "''o''" "''r''" "sha cleanup"
      "start \<lparr>picks = [Some network_error], answers = [], dirty = [], posts = []\<rparr>"
      network_error "\<lparr>picks = [], answers = [], dirty = [], posts = []\<rparr>"]
  by (simp add: scripted_def start_def network_error_def pick_failed_def)

text \<open>
  C3 at a failing input: the cherry-pick step raises an error that is not a conflict and
  has no \<^verbatim>\<open>cmd\<close> property; the caller receives a type error, not the error that was raised.
\<close>

theorem other_failure_replaced:
  "cherrypickAndConfirm scripted ''o'' ''r'' (sha fix10)
      (start \<lparr>picks = [Some network_error], answers = [], dirty = [], posts = []\<rparr>)
     = Some (Inl (TypeError includes_of_undefined),
         \<lparr>trace = [SpinnerStart (Some ''Cherry-picking commit''),
              Cherrypick ''o'' ''r'' (sha fix10),
              SpinnerText ''Cherry-picking failed. Please resolve conflicts in: /repositories/o/r'',
              SpinnerFail],
          world = \<lparr>picks = [], answers = [], dirty = [], posts = []\<rparr>\<rparr>)
   \<and> e_name (TypeError includes_of_undefined) \<noteq> e_name network_error
   \<and> e_message (TypeError includes_of_undefined) \<noteq> e_message network_error"
proof -
  have "cherrypick scripted ''o'' ''r'' (sha fix10)
      (world (start \<lparr>picks = [Some network_error], answers = [], dirty = [], posts = []\<rparr>))
     = (Inl network_error, \<lparr>picks = [], answers = [], dirty = [], posts = []\<rparr>)"
    by (simp add: scripted_def start_def)
  from cherrypick_failed [OF this] show ?thesis
    by (simp add: scripted_def start_def network_error_def TypeError_def includes_of_undefined_def)
qed


lemmas run = startBranch_def doBackportVersion_def pullLatestChanges_def cherrypickCommits_def
  pushFeatureBranch_def creatingPullRequest_def doBackportVersions_def sequentially_def
  await_def withSpinner_def call_def emit_def cherrypickAndConfirm_def
  confirmResolvedRecursive.simps createPullRequest_def addLabels_def getError_def
  handleErrors_def HandledError_def truthy_string_def getPullRequestPayload_def
  getPullRequestTitle_def getFeatureBranchName_def getReferenceShort_def getReferenceLong_def
  getShortSha_def commitRef_def truthy_number_def number_to_string_def decimal_digits.simps
  digit_char_def Let_def scripted_simps

subsection \<open>A branch that fails while cherry-picking\<close>

lemma branch_fails_in_series:
  assumes "startBranch env owner repoName commits baseBranch s = Some (Inr u, s1)"
    and "cherrypickCommits env owner repoName commits s1 = Some (Inl e, s2)"
  shows "doBackportVersion env owner repoName commits baseBranch username labels s = Some (Inl e, s2)"
  using assms by (simp add: doBackportVersion_def startBranch_def Let_def await_def)

lemma start_trace:
  assumes "startBranch env owner repoName commits baseBranch s = Some (r, s1)"
  shows "\<exists>evs. trace s1 = trace s @ evs \<and> filter is_cherrypick evs = [] \<and> filter is_publish evs = []"
proof -
  let ?line = "Log (''Backporting '' @ join '', '' (map getReferenceLong commits) @ '' to '' @ baseBranch)"
  from assms pull_trace [of env owner repoName baseBranch "getFeatureBranchName baseBranch commits"
      "emit ?line s" r s1]
  obtain evs where "trace s1 = trace (emit ?line s) @ evs" "filter is_cherrypick evs = []"
    "filter is_publish evs = []"
    by (auto simp: startBranch_def)
  then have "trace s1 = trace s @ (?line # evs) \<and> filter is_cherrypick (?line # evs) = []
      \<and> filter is_publish (?line # evs) = []"
    by (simp add: emit_def)
  then show ?thesis by blast
qed

lemma events_since_append: "trace s1 = trace s @ evs \<Longrightarrow> events_since s s1 = evs"
  by (simp add: events_since_def)




subsection \<open>The operator's abort\<close>

text \<open>
  C2, amended: when the operator denies the confirmation (at once or after \<open>n\<close> rounds on a
  dirty tree), the pipeline of the current branch is aborted with the user-facing failure
  \<open>Application was aborted.\<close>: no further commit of that branch is cherry-picked, nothing
  is pushed and no request is sent to the API, so what completed branches published is left
  as it is. The coordinator prints the message and goes on with the remaining branches.
\<close>

theorem abort_stops_branch_only:
  assumes "startBranch env owner repoName commits baseBranch s = Some (Inr u, s1)"
    and "cherrypickCommits env owner repoName (take k commits) s1 = Some (Inr v, s2)"
    and "k < length commits"
    and "cherrypick env owner repoName (sha (commits ! k)) (world s2) = (Inl e, w3)"
    and "e_cmd e = Some cmd"
    and "includes_str cmd ''git cherry-pick''"
    and "dirty_rounds env owner repoName n w3 = Some w"
    and "confirmConflictResolved env w = (Inr False, w4)"
    and "s5 = \<lparr>trace = trace s2 @ pick_failed env owner repoName (sha (commits ! k))
                 @ round_events owner repoName n @ [ConfirmConflictResolved], world = w4\<rparr>"
  shows "doBackportVersion env owner repoName commits baseBranch username labels s
       = Some (Inl (HandledError ''Application was aborted.''), s5)
     \<and> filter is_cherrypick (events_since s s5)
         = map (\<lambda>c. Cherrypick owner repoName (sha c)) (take (Suc k) commits)
     \<and> filter is_publish (events_since s s5) = []
     \<and> doBackportVersions env owner repoName commits (baseBranch # rest) username labels s
         = doBackportVersions env owner repoName commits rest username labels
             (emit (ConsoleError ''Application was aborted.'') s5)"
proof -
  let ?s3 = "\<lparr>trace = trace s2 @ pick_failed env owner repoName (sha (commits ! k)), world = w3\<rparr>"
  have "cherrypickAndConfirm env owner repoName (sha (commits ! k)) s2
      = confirmResolvedRecursive env owner repoName ?s3"
    using assms(4,5,6) by (simp add: cherrypick_failed pick_failed_def)
  also have "\<dots> = confirmResolvedRecursive env owner repoName
       \<lparr>trace = trace ?s3 @ round_events owner repoName n, world = w\<rparr>"
    using assms(7) by (intro confirm_rounds) simp
  also have "\<dots> = Some (Inl (HandledError ''Application was aborted.''), s5)"
    using assms(8,9) by (subst confirm_denied [where ?w1.0 = w4]) simp_all
  finally have failed: "cherrypickAndConfirm env owner repoName (sha (commits ! k)) s2
      = Some (Inl (HandledError ''Application was aborted.''), s5)" .
  from start_trace [OF assms(1)] obtain evs0 where
    evs0: "trace s1 = trace s @ evs0" "filter is_cherrypick evs0 = []" "filter is_publish evs0 = []"
    by blast
  from series_trace [OF assms(2)] obtain evs1 where
    evs1: "trace s2 = trace s1 @ evs1"
      "filter is_cherrypick evs1 = map (\<lambda>c. Cherrypick owner repoName (sha c)) (take k commits)"
      "filter is_publish evs1 = []"
    by blast
  from pick_trace [OF failed] obtain evs2 where
    evs2: "trace s5 = trace s2 @ evs2"
      "filter is_cherrypick evs2 = [Cherrypick owner repoName (sha (commits ! k))]"
      "filter is_publish evs2 = []"
    by blast
  have "trace s5 = trace s @ (evs0 @ evs1 @ evs2)"
    using evs0 evs1 evs2 by simp
  then have since: "events_since s s5 = evs0 @ evs1 @ evs2"
    by (rule events_since_append)
  have "cherrypickCommits env owner repoName commits s1
      = Some (Inl (HandledError ''Application was aborted.''), s5)"
    using assms(2,3) failed by (rule series_first_failure)
  with assms(1) have branch: "doBackportVersion env owner repoName commits baseBranch username labels s
      = Some (Inl (HandledError ''Application was aborted.''), s5)"
    by (rule branch_fails_in_series)
  have "doBackportVersions env owner repoName commits (baseBranch # rest) username labels s
         = doBackportVersions env owner repoName commits rest username labels
             (emit (ConsoleError ''Application was aborted.'') s5)"
    by (simp add: coordinator_step branch) (simp add: HandledError_def)
  with branch since evs0 evs1 evs2 assms(3) show ?thesis
    by (simp add: take_Suc_conv_app_nth)
qed


text \<open>
  Against C2 as stated: the operator denies the confirmation on the first of two branches,
  and the second branch is still attempted; it is pushed and its pull request is created.
\<close>

theorem abort_continues_counterexample:
  "doBackportVersions scripted ''o'' ''r'' [fix10] [''6.x'', ''7.x''] ''u'' []
      (start \<lparr>picks = [Some conflict], answers = [False], dirty = [], posts = []\<rparr>)
     = Some (Inr Undefined,
         \<lparr>trace =
            [Log ''Backporting #10 to 6.x'',
             SpinnerStart (Some ''Pulling latest changes''),
             ResetBranch ''o'' ''r'',
             CreateAndCheckoutBranch ''o'' ''r'' ''6.x'' ''backport/6.x/pr-10'',
             SpinnerSucceed,
             SpinnerStart (Some ''Cherry-picking commit''),
             Cherrypick ''o'' ''r'' ''abc1234def0123456789abcdef0123456789abcd'',
             SpinnerText ''Cherry-picking failed. Please resolve conflicts in: /repositories/o/r'',
             SpinnerFail,
             ConfirmConflictResolved,
             ConsoleError ''Application was aborted.'',
             Log ''Backporting #10 to 7.x'',
             SpinnerStart (Some ''Pulling latest changes''),
             ResetBranch ''o'' ''r'',
             CreateAndCheckoutBranch ''o'' ''r'' ''7.x'' ''backport/7.x/pr-10'',
             SpinnerSucceed,
             SpinnerStart (Some ''Cherry-picking commit''),
             Cherrypick ''o'' ''r'' ''abc1234def0123456789abcdef0123456789abcd'',
             SpinnerSucceed,
             SpinnerStart (Some ''Pushing branch u:backport/7.x/pr-10''),
             Push ''o'' ''r'' ''u'' ''backport/7.x/pr-10'',
             SpinnerSucceed,
             SpinnerStart (Some ''Creating pull request''),
             AxiosPost ''https://api.github.com/repos/o/r/pulls?access_token=t''
               (PullRequestBody
                 \<lparr>title = ''[7.x] Fix bug (#10)'',
                    body = ''Backports the following commits to 7.x:\<newline> - Fix bug  (#10)'',
                    head = ''u:backport/7.x/pr-10'', base = ''7.x''\<rparr>),
             SpinnerSucceed,
             Log ''View pull request: https://github.com/pull/1\<newline>''],
          world = \<lparr>picks = [], answers = [], dirty = [], posts = []\<rparr>\<rparr>)"
  by (simp add: run)

text \<open>
  C2 on two commits and one branch: the second commit conflicts, the operator confirms
  once on a dirty tree and then denies.
\<close>

theorem abort_stops_branch_only_witness:
  "doBackportVersions scripted ''o'' ''r'' [cleanup, fix10] [''6.x''] ''u'' []
      (start \<lparr>picks = [None, Some conflict], answers = [True, False], dirty = [True], posts = []\<rparr>)
     = Some (Inr Undefined,
         \<lparr>trace =
            [Log ''Backporting deadbee, #10 to 6.x'',
             SpinnerStart (Some ''Pulling latest changes''),
             ResetBranch ''o'' ''r'',
             CreateAndCheckoutBranch ''o'' ''r'' ''6.x'' ''backport/6.x/commit-deadbee_pr-10'',
             SpinnerSucceed,
             SpinnerStart (Some ''Cherry-picking commit''),
             Cherrypick ''o'' ''r'' ''deadbeefcafe0123456789abcdef0123456789ab'',
             SpinnerSucceed,
             SpinnerStart (Some ''Cherry-picking commit''),
             Cherrypick ''o'' ''r'' ''abc1234def0123456789abcdef0123456789abcd'',
             SpinnerText ''Cherry-picking failed. Please resolve conflicts in: /repositories/o/r'',
             SpinnerFail,
             ConfirmConflictResolved, IsIndexDirty ''o'' ''r'',
             ConfirmConflictResolved,
             ConsoleError ''Application was aborted.''],
          world = \<lparr>picks = [], answers = [], dirty = [], posts = []\<rparr>\<rparr>)"
proof -
  let ?s0 = "start \<lparr>picks = [None, Some conflict], answers = [True, False], dirty = [True], posts = []\<rparr>"
  let ?sync = "[Log ''Backporting deadbee, #10 to 6.x'',
             SpinnerStart (Some ''Pulling latest changes''),
             ResetBranch ''o'' ''r'',
             CreateAndCheckoutBranch ''o'' ''r'' ''6.x'' ''backport/6.x/commit-deadbee_pr-10'',
             SpinnerSucceed]"
  let ?first = "[SpinnerStart (Some ''Cherry-picking commit''),
             Cherrypick ''o'' ''r'' ''deadbeefcafe0123456789abcdef0123456789ab'',
             SpinnerSucceed]"
  let ?s1 = "\<lparr>trace = ?sync,
      world = \<lparr>picks = [None, Some conflict], answers = [True, False], dirty = [True], posts = []\<rparr>\<rparr>"
  let ?s2 = "\<lparr>trace = ?sync @ ?first,
      world = \<lparr>picks = [Some conflict], answers = [True, False], dirty = [True], posts = []\<rparr>\<rparr>"
  let ?s5 = "\<lparr>trace = trace ?s2 @ pick_failed scripted ''o'' ''r'' (sha ([cleanup, fix10] ! Suc 0))
                 @ round_events ''o'' ''r'' (Suc 0) @ [ConfirmConflictResolved],
              world = \<lparr>picks = [], answers = [], dirty = [], posts = []\<rparr>\<rparr>"
  have sync: "startBranch scripted ''o'' ''r'' [cleanup, fix10] ''6.x'' ?s0 = Some (Inr (), ?s1)"
    by (simp add: run)
  have picked: "cherrypickCommits scripted ''o'' ''r'' (take (Suc 0) [cleanup, fix10]) ?s1
      = Some (Inr Undefined, ?s2)"
    by (simp add: run)
  have conflicted: "cherrypick scripted ''o'' ''r'' (sha ([cleanup, fix10] ! Suc 0)) (world ?s2)
      = (Inl conflict, \<lparr>picks = [], answers = [True, False], dirty = [True], posts = []\<rparr>)"
    by (simp add: scripted_def)
  have cmd: "e_cmd conflict = Some ''git cherry-pick abc1234''"
    by (simp add: conflict_def)
  have is_pick: "includes_str ''git cherry-pick abc1234'' ''git cherry-pick''"
    by simp
  have rounds: "dirty_rounds scripted ''o'' ''r'' (Suc 0)
      \<lparr>picks = [], answers = [True, False], dirty = [True], posts = []\<rparr>
     = Some \<lparr>picks = [], answers = [False], dirty = [], posts = []\<rparr>"
    by (simp add: scripted_def)
  have denied: "confirmConflictResolved scripted \<lparr>picks = [], answers = [False], dirty = [], posts = []\<rparr>
     = (Inr False, \<lparr>picks = [], answers = [], dirty = [], posts = []\<rparr>)"
    by (simp add: scripted_def)
  have "doBackportVersions scripted ''o'' ''r'' [cleanup, fix10] (''6.x'' # []) ''u'' [] ?s0
      = doBackportVersions scripted ''o'' ''r'' [cleanup, fix10] [] ''u'' []
          (emit (ConsoleError ''Application was aborted.'') ?s5)"
    using abort_stops_branch_only [OF sync picked _ conflicted cmd is_pick rounds denied refl,
        of "''u''" "[]" "[]"]
    by simp
  then show ?thesis
    by (simp add: doBackportVersions_def sequentially_def emit_def pick_failed_def
        round_events_def scripted_simps)
qed

subsection \<open>The coordinator\<close>

text \<open>
  C1, amended: for every list of target branches processed in order, when the branches
  before it have been processed and a branch's pipeline raises a failure named
  \<open>HandledError\<close>, the coordinator prints its message and runs the remaining branches;
  when it raises any other failure, the coordinator prints the error and raises it again,
  and the remaining branches are skipped. The pull request of a branch that succeeds is
  logged (\<open>View pull request: <url>\<close>), not returned: the coordinator resolves with
  \<open>undefined\<close>.
\<close>

theorem coordinator_isolates_failures:
  assumes "doBackportVersions env owner repoName commits pre username labels s0 = Some (Inr v, s)"
    and "doBackportVersion env owner repoName commits baseBranch username labels s = Some (Inl e, s1)"
  shows "doBackportVersions env owner repoName commits (pre @ baseBranch # rest) username labels s0
       = (if e_name e = ''HandledError''
          then doBackportVersions env owner repoName commits rest username labels
                 (emit (ConsoleError (e_message e)) s1)
          else Some (Inl e, emit (ConsoleErrorValue e) s1))
     \<and> (doBackportVersion env owner repoName commits b username labels s2
           = Some (Inr pullRequest, s3) \<longrightarrow>
          doBackportVersions env owner repoName commits (b # bs) username labels s2
            = doBackportVersions env owner repoName commits bs username labels
                (emit (Log (''View pull request: '' @ html_url pullRequest @ [CHR 0x0A])) s3))
     \<and> (doBackportVersions env owner repoName commits bs' username labels s4 = Some (Inr v', s5)
          \<longrightarrow> v' = Undefined)"
proof -
  have "doBackportVersions env owner repoName commits (pre @ baseBranch # rest) username labels s0
      = doBackportVersions env owner repoName commits (baseBranch # rest) username labels s"
    using assms(1) by (simp add: coordinator_append await_def)
  also have "\<dots> = (if e_name e = ''HandledError''
          then doBackportVersions env owner repoName commits rest username labels
                 (emit (ConsoleError (e_message e)) s1)
          else Some (Inl e, emit (ConsoleErrorValue e) s1))"
    using assms(2) by (simp add: coordinator_step)
  finally show ?thesis
    using coordinator_undefined [of env owner repoName commits bs' username labels s4 v' s5]
    by (simp add: coordinator_step)
qed


lemma run_api_error:
  "doBackportVersion scripted ''o'' ''r'' [fix10] ''6.x'' ''u'' []
      (start \<lparr>picks = [], answers = [], dirty = [], posts = [Some api_error]\<rparr>)
     = Some (Inl (getError print_data api_error),
         \<lparr>trace =
            [Log ''Backporting #10 to 6.x'',
             SpinnerStart (Some ''Pulling latest changes''),
             ResetBranch ''o'' ''r'',
             CreateAndCheckoutBranch ''o'' ''r'' ''6.x'' ''backport/6.x/pr-10'',
             SpinnerSucceed,
             SpinnerStart (Some ''Cherry-picking commit''),
             Cherrypick ''o'' ''r'' ''abc1234def0123456789abcdef0123456789abcd'',
             SpinnerSucceed,
             SpinnerStart (Some ''Pushing branch u:backport/6.x/pr-10''),
             Push ''o'' ''r'' ''u'' ''backport/6.x/pr-10'',
             SpinnerSucceed,
             SpinnerStart (Some ''Creating pull request''),
             AxiosPost ''https://api.github.com/repos/o/r/pulls?access_token=t''
               (PullRequestBody
                 \<lparr>title = ''[6.x] Fix bug (#10)'',
                    body = ''Backports the following commits to 6.x:\<newline> - Fix bug  (#10)'',
                    head = ''u:backport/6.x/pr-10'', base = ''6.x''\<rparr>),
             SpinnerFail],
          world = \<lparr>picks = [], answers = [], dirty = [], posts = []\<rparr>\<rparr>)"
  by (simp add: run)

lemma api_error_printed:
  "getError print_data api_error
     = HandledError ''message=Validation Failed;axiosUrl=https://api.github.com/repos/o/r/pulls?access_token=t;''"
  by (simp add: getError_def api_error_def)

text \<open>
  Against C1 as stated: the first of two branches raises an expected failure, the second
  succeeds with a pull request, and the coordinator returns \<open>undefined\<close>, not that pull
  request.
\<close>

theorem coordinator_returns_undefined_counterexample:
  "doBackportVersions scripted ''o'' ''r'' [cleanup] [''6.x'', ''7.x''] ''u'' []
      (start \<lparr>picks = [Some conflict], answers = [True, False], dirty = [True], posts = []\<rparr>)
     = Some (Inr Undefined,
         \<lparr>trace =
            [Log ''Backporting deadbee to 6.x'',
             SpinnerStart (Some ''Pulling latest changes''),
             ResetBranch ''o'' ''r'',
             CreateAndCheckoutBranch ''o'' ''r'' ''6.x'' ''backport/6.x/commit-deadbee'',
             SpinnerSucceed,
             SpinnerStart (Some ''Cherry-picking commit''),
             Cherrypick ''o'' ''r'' ''deadbeefcafe0123456789abcdef0123456789ab'',
             SpinnerText ''Cherry-picking failed. Please resolve conflicts in: /repositories/o/r'',
             SpinnerFail,
             ConfirmConflictResolved, IsIndexDirty ''o'' ''r'',
             ConfirmConflictResolved,
             ConsoleError ''Application was aborted.'',
             Log ''Backporting deadbee to 7.x'',
             SpinnerStart (Some ''Pulling latest changes''),
             ResetBranch ''o'' ''r'',
             CreateAndCheckoutBranch ''o'' ''r'' ''7.x'' ''backport/7.x/commit-deadbee'',
             SpinnerSucceed,
             SpinnerStart (Some ''Cherry-picking commit''),
             Cherrypick ''o'' ''r'' ''deadbeefcafe0123456789abcdef0123456789ab'',
             SpinnerSucceed,
             SpinnerStart (Some ''Pushing branch u:backport/7.x/commit-deadbee''),
             Push ''o'' ''r'' ''u'' ''backport/7.x/commit-deadbee'',
             SpinnerSucceed,
             SpinnerStart (Some ''Creating pull request''),
             AxiosPost ''https://api.github.com/repos/o/r/pulls?access_token=t''
               (PullRequestBody
                 \<lparr>title = ''[7.x] Clean up'',
                    body = ''Backports the following commits to 7.x:\<newline> - Clean up (deadbee)'',
                    head = ''u:backport/7.x/commit-deadbee'', base = ''7.x''\<rparr>),
             SpinnerSucceed,
             Log ''View pull request: https://github.com/pull/1\<newline>''],
          world = \<lparr>picks = [], answers = [], dirty = [], posts = []\<rparr>\<rparr>)
   \<and> Undefined \<noteq> PullRequestValue \<lparr>html_url = ''https://github.com/pull/1'', number = 1\<rparr>"
  by (simp add: run)

text \<open>
  C1 on two branches: the pipeline of the first raises a handled failure, the second is
  run and its pull request is logged.
\<close>

theorem coordinator_isolates_failures_witness:
  "doBackportVersions scripted ''o'' ''r'' [fix10] [''6.x'', ''7.x''] ''u'' []
      (start \<lparr>picks = [], answers = [], dirty = [], posts = [Some api_error]\<rparr>)
     = Some (Inr Undefined,
         \<lparr>trace =
            [Log ''Backporting #10 to 6.x'',
             SpinnerStart (Some ''Pulling latest changes''),
             ResetBranch ''o'' ''r'',
             CreateAndCheckoutBranch ''o'' ''r'' ''6.x'' ''backport/6.x/pr-10'',
             SpinnerSucceed,
             SpinnerStart (Some ''Cherry-picking commit''),
             Cherrypick ''o'' ''r'' ''abc1234def0123456789abcdef0123456789abcd'',
             SpinnerSucceed,
             SpinnerStart (Some ''Pushing branch u:backport/6.x/pr-10''),
             Push ''o'' ''r'' ''u'' ''backport/6.x/pr-10'',
             SpinnerSucceed,
             SpinnerStart (Some ''Creating pull request''),
             AxiosPost ''https://api.github.com/repos/o/r/pulls?access_token=t''
               (PullRequestBody
                 \<lparr>title = ''[6.x] Fix bug (#10)'',
                    body = ''Backports the following commits to 6.x:\<newline> - Fix bug  (#10)'',
                    head = ''u:backport/6.x/pr-10'', base = ''6.x''\<rparr>),
             SpinnerFail,
             ConsoleError
               ''message=Validation Failed;axiosUrl=https://api.github.com/repos/o/r/pulls?access_token=t;'',
             Log ''Backporting #10 to 7.x'',
             SpinnerStart (Some ''Pulling latest changes''),
             ResetBranch ''o'' ''r'',
             CreateAndCheckoutBranch ''o'' ''r'' ''7.x'' ''backport/7.x/pr-10'',
             SpinnerSucceed,
             SpinnerStart (Some ''Cherry-picking commit''),
             Cherrypick ''o'' ''r'' ''abc1234def0123456789abcdef0123456789abcd'',
             SpinnerSucceed,
             SpinnerStart (Some ''Pushing branch u:backport/7.x/pr-10''),
             Push ''o'' ''r'' ''u'' ''backport/7.x/pr-10'',
             SpinnerSucceed,
             SpinnerStart (Some ''Creating pull request''),
             AxiosPost ''https://api.github.com/repos/o/r/pulls?access_token=t''
               (PullRequestBody
                 \<lparr>title = ''[7.x] Fix bug (#10)'',
                    body = ''Backports the following commits to 7.x:\<newline> - Fix bug  (#10)'',
                    head = ''u:backport/7.x/pr-10'', base = ''7.x''\<rparr>),
             SpinnerSucceed,
             Log ''View pull request: https://github.com/pull/1\<newline>''],
          world = \<lparr>picks = [], answers = [], dirty = [], posts = []\<rparr>\<rparr>)"
proof -
  let ?s0 = "start \<lparr>picks = [], answers = [], dirty = [], posts = [Some api_error]\<rparr>"
  have none_before: "doBackportVersions scripted ''o'' ''r'' [fix10] [] ''u'' [] ?s0
      = Some (Inr Undefined, ?s0)"
    by (simp add: doBackportVersions_def sequentially_def)
  have "doBackportVersions scripted ''o'' ''r'' [fix10] ([] @ ''6.x'' # [''7.x'']) ''u'' [] ?s0
      = doBackportVersions scripted ''o'' ''r'' [fix10] [''7.x''] ''u'' []
          (emit (ConsoleError (e_message (getError print_data api_error)))
             (snd (the (doBackportVersion scripted ''o'' ''r'' [fix10] ''6.x'' ''u'' [] ?s0))))"
    using coordinator_isolates_failures [OF none_before run_api_error, of "[''7.x'']"]
    by (simp add: run_api_error api_error_printed HandledError_def)
  then show ?thesis
    by (simp add: run_api_error) (simp add: run)
qed

subsection \<open>Error responses of the hosting API\<close>

text \<open>
  Against C8 as stated: an error response of the API with a body becomes a
  \<open>HandledError\<close>, which the per-branch handler prints and does not raise again.
\<close>

theorem api_error_response_counterexample:
  "e_response api_error = Some (JObj [(''message'', JStr ''Validation Failed'')])
   \<and> getError print_data api_error
       = HandledError ''message=Validation Failed;axiosUrl=https://api.github.com/repos/o/r/pulls?access_token=t;''
   \<and> handleErrors (getError print_data api_error)
        (start \<lparr>picks = [], answers = [], dirty = [], posts = []\<rparr>)
       = (Inr (),
          \<lparr>trace = [ConsoleError
               ''message=Validation Failed;axiosUrl=https://api.github.com/repos/o/r/pulls?access_token=t;''],
            world = \<lparr>picks = [], answers = [], dirty = [], posts = []\<rparr>\<rparr>)"
  by (simp add: getError_def api_error_def handleErrors_def HandledError_def emit_def start_def)

text \<open>
  C8, amended: an error response of the hosting API that carries a body is an expected
  failure. \<^verbatim>\<open>getError\<close> turns it into a \<open>HandledError\<close> whose message is the text of
  the API's structured error body with the request's URL added as \<open>axiosUrl\<close>; the
  per-branch handler prints that message and the coordinator goes on with the remaining
  branches. An error without a response body is passed on unchanged, and an error that is
  not a \<open>HandledError\<close> is printed and raised again. A rejected request for a pull
  request goes through \<^verbatim>\<open>getError\<close>.
\<close>

theorem api_error_response_handled:
  "(e_response e = Some d \<and> truthy d \<longrightarrow>
      getError stringify e = HandledError (stringify (diagnostic e d)) \<and>
      handleErrors (getError stringify e) s
        = (Inr (), emit (ConsoleError (stringify (diagnostic e d))) s))
   \<and> (e_response e = Some d \<and> truthy d \<and>
       doBackportVersion env owner repoName commits baseBranch username labels s
         = Some (Inl (getError (json_stringify env) e), s') \<longrightarrow>
       doBackportVersions env owner repoName commits (baseBranch # rest) username labels s
         = doBackportVersions env owner repoName commits rest username labels
             (emit (ConsoleError (json_stringify env (diagnostic e d))) s'))
   \<and> (e_response e = None \<or> (e_response e = Some d \<and> \<not> truthy d) \<longrightarrow> getError stringify e = e)
   \<and> (e_name e \<noteq> ''HandledError'' \<longrightarrow>
        handleErrors e s = (Inl e, emit (ConsoleErrorValue e) s))
   \<and> (axios_post_pulls env
          (''https://api.github.com/repos/'' @ owner @ ''/'' @ repoName
             @ ''/pulls?access_token='' @ accessToken env) payload (world s) = (Inl e, w') \<longrightarrow>
        createPullRequest env owner repoName payload s
          = Some (Inl (getError (json_stringify env) e),
              \<lparr>trace = trace s @ [AxiosPost (''https://api.github.com/repos/'' @ owner @ ''/''
                   @ repoName @ ''/pulls?access_token='' @ accessToken env) (PullRequestBody payload)],
               world = w'\<rparr>))"
proof -
  have printed: "getError str e = HandledError (str (diagnostic e d))"
    if "e_response e = Some d" "truthy d" for str
    using that by (simp add: getError_def diagnostic_def)
  have handled: "handleErrors (HandledError m) s = (Inr (), emit (ConsoleError m) s)" for m
    by (simp add: handleErrors_def HandledError_def)
  have unchanged: "getError stringify e = e"
    if "e_response e = None \<or> (e_response e = Some d \<and> \<not> truthy d)"
    using that by (auto simp: getError_def)
  have continues: "doBackportVersions env owner repoName commits (baseBranch # rest) username labels s
         = doBackportVersions env owner repoName commits rest username labels
             (emit (ConsoleError (json_stringify env (diagnostic e d))) s')"
    if "e_response e = Some d" "truthy d"
      "doBackportVersion env owner repoName commits baseBranch username labels s
         = Some (Inl (getError (json_stringify env) e), s')"
    using that(3) by (simp add: coordinator_step printed [OF that(1,2)]) (simp add: HandledError_def)
  have raised: "handleErrors e s = (Inl e, emit (ConsoleErrorValue e) s)"
    if "e_name e \<noteq> ''HandledError''"
    using that by (simp add: handleErrors_def)
  have posted: "createPullRequest env owner repoName payload s
          = Some (Inl (getError (json_stringify env) e),
              \<lparr>trace = trace s @ [AxiosPost (''https://api.github.com/repos/'' @ owner @ ''/''
                   @ repoName @ ''/pulls?access_token='' @ accessToken env) (PullRequestBody payload)],
               world = w'\<rparr>)"
    if "axios_post_pulls env
          (''https://api.github.com/repos/'' @ owner @ ''/'' @ repoName
             @ ''/pulls?access_token='' @ accessToken env) payload (world s) = (Inl e, w')"
    using that by (simp add: createPullRequest_def call_def Let_def)
  show ?thesis
    using printed handled unchanged continues raised posted by presburger
qed

text \<open>C8 on one branch whose request for a pull request is answered with an error response.\<close>

theorem api_error_response_handled_witness:
  "doBackportVersions scripted ''o'' ''r'' [fix10] [''6.x''] ''u'' []
      (start \<lparr>picks = [], answers = [], dirty = [], posts = [Some api_error]\<rparr>)
     = Some (Inr Undefined,
         \<lparr>trace =
            [Log ''Backporting #10 to 6.x'',
             SpinnerStart (Some ''Pulling latest changes''),
             ResetBranch ''o'' ''r'',
             CreateAndCheckoutBranch ''o'' ''r'' ''6.x'' ''backport/6.x/pr-10'',
             SpinnerSucceed,
             SpinnerStart (Some ''Cherry-picking commit''),
             Cherrypick ''o'' ''r'' ''abc1234def0123456789abcdef0123456789abcd'',
             SpinnerSucceed,
             SpinnerStart (Some ''Pushing branch u:backport/6.x/pr-10''),
             Push ''o'' ''r'' ''u'' ''backport/6.x/pr-10'',
             SpinnerSucceed,
             SpinnerStart (Some ''Creating pull request''),
             AxiosPost ''https://api.github.com/repos/o/r/pulls?access_token=t''
               (PullRequestBody
                 \<lparr>title = ''[6.x] Fix bug (#10)'',
                    body = ''Backports the following commits to 6.x:\<newline> - Fix bug  (#10)'',
                    head = ''u:backport/6.x/pr-10'', base = ''6.x''\<rparr>),
             SpinnerFail,
             ConsoleError
               ''message=Validation Failed;axiosUrl=https://api.github.com/repos/o/r/pulls?access_token=t;''],
          world = \<lparr>picks = [], answers = [], dirty = [], posts = []\<rparr>\<rparr>)"
proof -
  let ?s0 = "start \<lparr>picks = [], answers = [], dirty = [], posts = [Some api_error]\<rparr>"
  have body: "e_response api_error = Some (JObj [(''message'', JStr ''Validation Failed'')])"
    and "truthy (JObj [(''message'', JStr ''Validation Failed'')])"
    by (simp_all add: api_error_def)
  moreover have "json_stringify scripted = print_data"
    by (simp add: scripted_def)
  ultimately have "doBackportVersions scripted ''o'' ''r'' [fix10] (''6.x'' # []) ''u'' [] ?s0
      = doBackportVersions scripted ''o'' ''r'' [fix10] [] ''u'' []
          (emit (ConsoleError (print_data (diagnostic api_error
               (JObj [(''message'', JStr ''Validation Failed'')]))))
             (snd (the (doBackportVersion scripted ''o'' ''r'' [fix10] ''6.x'' ''u'' [] ?s0))))"
    using api_error_response_handled [where e = api_error
        and d = "JObj [(''message'', JStr ''Validation Failed'')]" and env = scripted
        and owner = "''o''" and repoName = "''r''" and commits = "[fix10]"
        and baseBranch = "''6.x''" and username = "''u''" and labels = "[]" and s = ?s0
        and s' = "snd (the (doBackportVersion scripted ''o'' ''r'' [fix10] ''6.x'' ''u'' [] ?s0))"
        and rest = "[]"]
    by (simp add: run_api_error)
  also have "\<dots> = doBackportVersions scripted ''o'' ''r'' [fix10] [] ''u'' []
          (emit (ConsoleError
              ''message=Validation Failed;axiosUrl=https://api.github.com/repos/o/r/pulls?access_token=t;'')
             (snd (the (doBackportVersion scripted ''o'' ''r'' [fix10] ''6.x'' ''u'' [] ?s0))))"
    by (simp add: diagnostic_def api_error_def)
  finally show ?thesis
    by (simp add: run_api_error) (simp add: doBackportVersions_def sequentially_def emit_def)
qed

end
